theory Spec2Isabelle
  imports Main "HOL-Library.Word"
begin

unbundle bit_operations_syntax

section \<open>Data model of \<open>drm/DrmAtomicStateManager.cpp\<close>\<close>

text \<open>
  Hardware objects are referred to through shared pointers that the code only compares
  and forwards; a pointer is modelled by the identity of the object it points to, and a
  pointer that may be null by an \<open>option\<close>. Member names lose the trailing underscore
  of the C++ source (\<open>frames_staged_\<close> is \<open>frames_staged\<close>), which is not a legal name
  here.
\<close>

type_synonym DrmPlane = nat
type_synonym DrmFbIdHandle = nat
type_synonym blob_id = nat
type_synonym DrmMode = nat
type_synonym drm_color_ctm = "nat list"

text \<open>\<open>SharedFd\<close>: an empty handle is \<open>None\<close>, otherwise the file descriptor it owns.\<close>

type_synonym SharedFd = "int option"

record LayerData =
  fb :: "DrmFbIdHandle option"

text \<open>One entry of \<open>DrmKmsPlan::plan\<close> (the loop variable \<open>joining\<close>).\<close>

record joining =
  plane :: DrmPlane
  layer :: LayerData
  z_pos :: int

record DrmKmsPlan =
  plan :: "joining list"

record AtomicCommitArgs =
  test_only :: bool
  display_mode :: "DrmMode option"
  active :: "bool option"
  composition :: "DrmKmsPlan option"
  color_matrix :: "drm_color_ctm option"
  out_fence :: SharedFd

text \<open>The frame state (\<open>active_frame_state_\<close>, \<open>staged_frame_state_\<close>, \<open>new_frame_state\<close>).\<close>

record KmsState =
  used_planes :: "DrmPlane list"
  used_framebuffers :: "DrmFbIdHandle option list"
  mode_blob :: "blob_id option"
  ctm_blob :: "blob_id option"
  crtc_active_state :: bool

text \<open>
  The members of the manager that \<open>CommitFrame\<close>, \<open>CleanupPriorFrameResources\<close> and
  \<open>ThreadFn\<close> read and write. The two counters are C++ \<open>int\<close>s, as is the local
  \<open>tracking_at_the_moment\<close> that line 225 copies one of them into: 32-bit words,
  read as signed numbers where the code compares them. Incrementing past \<open>INT_MAX\<close>
  is undefined in C++; the model takes the two's-complement result, \<open>INT_MIN\<close>.
\<close>

record DrmAtomicStateManager =
  active_frame_state :: KmsState
  staged_frame_state :: KmsState
  last_present_fence :: SharedFd
  frames_staged :: "32 word"
  frames_tracked :: "32 word"

subsection \<open>The property transaction\<close>

text \<open>
  What \<open>AtomicSet\<close>, \<open>AtomicSetState\<close> and \<open>AtomicDisablePlane\<close> add to the property set
  \<open>pset\<close>, in the order of the calls. \<open>PlaneState p l z c b\<close> is
  \<open>plane->AtomicSetState(pset, l, z, c, b)\<close> with \<open>b\<close> the \<open>most_bottom\<close> argument.
\<close>

datatype atomic_op =
    OutFencePtr
  | CrtcActive nat
  | ConnectorCrtcId nat
  | CrtcMode blob_id
  | CrtcCtm blob_id
  | PlaneState DrmPlane LayerData int nat bool
  | PlaneDisable DrmPlane

datatype alog =
    FailedToAllocatePropertySet
  | FailedToCreateModeBlob
  | FailedToCreateCtmBlob
  | SyncWaitReturned int int
  | FailedToCommitPset int
  | CompositeFailed
  | FailedToCleanUpActiveComposition

text \<open>
  The calls that leave the process, in program order: blob registration, the fence wait,
  the atomic commit ioctl with the transaction and flags it carries, and error logging.
\<close>

datatype event =
    CreateModeBlobCall DrmMode
  | RegisterUserPropertyBlobCall drm_color_ctm
  | SyncWait int int
  | AtomicCommit "atomic_op list" "32 word"
  | ALOGE alog

subsection \<open>External collaborators\<close>

text \<open>
  Everything \<open>CommitFrame\<close> calls that is not defined in the file: libdrm, the kernel,
  the sync framework, and the helpers \<open>AtomicCommitArgs::HasInputs\<close> and \<open>MakeSharedFd\<close>
  of headers that are not part of the sources. Their answers are parameters of the
  model. \<open>AtomicSet\<close>, \<open>AtomicSetState\<close> and \<open>AtomicDisablePlane\<close> may depend on the
  properties already in the set. \<open>drmModeAtomicCommit\<close> answers with its return code and
  with the value left in the local \<open>out_fence\<close> (initialised to \<open>-1\<close> by the caller).
\<close>

record kms =
  HasInputs :: "AtomicCommitArgs \<Rightarrow> bool"
  MakeDrmModeAtomicReqUnique :: bool
  AtomicSet :: "atomic_op list \<Rightarrow> atomic_op \<Rightarrow> bool"
  AtomicSetState :: "atomic_op list \<Rightarrow> DrmPlane \<Rightarrow> LayerData \<Rightarrow> int \<Rightarrow> nat \<Rightarrow> bool \<Rightarrow> int"
  AtomicDisablePlane :: "atomic_op list \<Rightarrow> DrmPlane \<Rightarrow> int"
  CreateModeBlob :: "DrmMode \<Rightarrow> blob_id option"
  RegisterUserPropertyBlob :: "drm_color_ctm \<Rightarrow> blob_id option"
  GetCtmProperty :: bool
  GetId :: nat
  drmModeAtomicCommit :: "atomic_op list \<Rightarrow> 32 word \<Rightarrow> int \<times> int"
  sync_wait :: "int \<Rightarrow> int \<Rightarrow> int"
  MakeSharedFd :: "int \<Rightarrow> SharedFd"

text \<open>Constants of \<open>drm_mode.h\<close> and \<open>errno.h\<close>.\<close>

definition DRM_MODE_ATOMIC_TEST_ONLY :: "32 word" where
  "DRM_MODE_ATOMIC_TEST_ONLY = 0x0100"

definition DRM_MODE_ATOMIC_NONBLOCK :: "32 word" where
  "DRM_MODE_ATOMIC_NONBLOCK = 0x0200"

definition DRM_MODE_ATOMIC_ALLOW_MODESET :: "32 word" where
  "DRM_MODE_ATOMIC_ALLOW_MODESET = 0x0400"

definition ENOMEM :: int where
  "ENOMEM = 12"

definition EINVAL :: int where
  "EINVAL = 22"

definition kTimeoutMs :: int where
  "kTimeoutMs = 500"

section \<open>Building the transaction\<close>

text \<open>
  Modelled from the spec: \<open>NewFrameState\<close> is a helper of the header, which is not part of
  the sources. The new frame state starts from the active one: its plane set and active
  flag are carried forward (``any plane in the previous active state's plane set'',
  ``unset fields carry forward the previous state's values''), while the owned blob
  handles and framebuffer holds belong to the frame state that created them and start
  empty.
\<close>

definition NewFrameState :: "DrmAtomicStateManager \<Rightarrow> KmsState" where
  "NewFrameState s =
     \<lparr>used_planes = used_planes (active_frame_state s),
      used_framebuffers = [],
      mode_blob = None,
      ctm_blob = None,
      crtc_active_state = crtc_active_state (active_frame_state s)\<rparr>"

text \<open>
  The locals of \<open>CommitFrame\<close> while the transaction is built, and the events emitted so
  far. A failing step returns the error code together with those events.
\<close>

record txn =
  pset :: "atomic_op list"
  new_frame_state :: KmsState
  nonblock :: bool
  trace :: "event list"

type_synonym 'a attempt = "(int \<times> event list) + 'a"

definition and_then :: "'a attempt \<Rightarrow> ('a \<Rightarrow> 'b attempt) \<Rightarrow> 'b attempt" where
  "and_then m f = (case m of Inl e \<Rightarrow> Inl e | Inr x \<Rightarrow> f x)"

text \<open>Lines 69--86: the frame state, the property set, the out-fence pointer.\<close>

definition txn_begin :: "kms \<Rightarrow> DrmAtomicStateManager \<Rightarrow> txn attempt" where
  "txn_begin k s =
     (if \<not> MakeDrmModeAtomicReqUnique k
      then Inl (- ENOMEM, [ALOGE FailedToAllocatePropertySet])
      else if \<not> AtomicSet k [] OutFencePtr
      then Inl (- EINVAL, [])
      else Inr \<lparr>pset = [OutFencePtr], new_frame_state = NewFrameState s,
                nonblock = True, trace = []\<rparr>)"

text \<open>Lines 88--95.\<close>

definition txn_active :: "kms \<Rightarrow> AtomicCommitArgs \<Rightarrow> txn \<Rightarrow> txn attempt" where
  "txn_active k args t =
     (case active args of
        None \<Rightarrow> Inr t
      | Some a \<Rightarrow>
          let v = (if a then 1 else 0) in
          if \<not> AtomicSet k (pset t) (CrtcActive v)
          then Inl (- EINVAL, trace t)
          else if \<not> AtomicSet k (pset t @ [CrtcActive v]) (ConnectorCrtcId (GetId k))
          then Inl (- EINVAL, trace t)
          else Inr (t\<lparr>pset := pset t @ [CrtcActive v, ConnectorCrtcId (GetId k)],
                       new_frame_state := (new_frame_state t)\<lparr>crtc_active_state := a\<rparr>,
                       nonblock := False\<rparr>))"

text \<open>Lines 97--108.\<close>

definition txn_mode :: "kms \<Rightarrow> AtomicCommitArgs \<Rightarrow> txn \<Rightarrow> txn attempt" where
  "txn_mode k args t =
     (case display_mode args of
        None \<Rightarrow> Inr t
      | Some m \<Rightarrow>
          let tr = trace t @ [CreateModeBlobCall m] in
          (case CreateModeBlob k m of
             None \<Rightarrow> Inl (- EINVAL, tr @ [ALOGE FailedToCreateModeBlob])
           | Some b \<Rightarrow>
               if \<not> AtomicSet k (pset t) (CrtcMode b)
               then Inl (- EINVAL, tr)
               else Inr (t\<lparr>pset := pset t @ [CrtcMode b],
                            new_frame_state := (new_frame_state t)\<lparr>mode_blob := Some b\<rparr>,
                            trace := tr\<rparr>)))"

text \<open>Lines 110--122.\<close>

definition txn_ctm :: "kms \<Rightarrow> AtomicCommitArgs \<Rightarrow> txn \<Rightarrow> txn attempt" where
  "txn_ctm k args t =
     (case color_matrix args of
        None \<Rightarrow> Inr t
      | Some c \<Rightarrow>
          if \<not> GetCtmProperty k then Inr t
          else
            let tr = trace t @ [RegisterUserPropertyBlobCall c] in
            (case RegisterUserPropertyBlob k c of
               None \<Rightarrow> Inl (- EINVAL, tr @ [ALOGE FailedToCreateCtmBlob])
             | Some b \<Rightarrow>
                 if \<not> AtomicSet k (pset t) (CrtcCtm b)
                 then Inl (- EINVAL, tr)
                 else Inr (t\<lparr>pset := pset t @ [CrtcCtm b],
                              new_frame_state := (new_frame_state t)\<lparr>ctm_blob := Some b\<rparr>,
                              trace := tr\<rparr>)))"

text \<open>
  Lines 131--147, the loop over the plan. The arguments after the plan are
  \<open>most_bottom\<close>, the list \<open>unused_planes\<close> and the locals.
\<close>

fun bind_plan :: "kms \<Rightarrow> joining list \<Rightarrow> bool \<Rightarrow> DrmPlane list \<Rightarrow> txn
    \<Rightarrow> (DrmPlane list \<times> txn) attempt" where
  "bind_plan k [] most_bottom unused t = Inr (unused, t)"
| "bind_plan k (j # js) most_bottom unused t =
     (let nfs = (new_frame_state t)
            \<lparr>used_framebuffers := used_framebuffers (new_frame_state t) @ [fb (layer j)],
             used_planes := used_planes (new_frame_state t) @ [plane j]\<rparr>;
          v = removeAll (plane j) unused
      in if AtomicSetState k (pset t) (plane j) (layer j) (z_pos j) (GetId k) most_bottom \<noteq> 0
         then Inl (- EINVAL, trace t)
         else bind_plan k js False v
                (t\<lparr>pset := pset t @ [PlaneState (plane j) (layer j) (z_pos j) (GetId k) most_bottom],
                   new_frame_state := nfs\<rparr>))"

text \<open>Lines 150--156, the loop over \<open>unused_planes\<close>.\<close>

fun disable_unused :: "kms \<Rightarrow> DrmPlane list \<Rightarrow> txn \<Rightarrow> txn attempt" where
  "disable_unused k [] t = Inr t"
| "disable_unused k (p # ps) t =
     (if AtomicDisablePlane k (pset t) p \<noteq> 0
      then Inl (- EINVAL, trace t)
      else disable_unused k ps (t\<lparr>pset := pset t @ [PlaneDisable p]\<rparr>))"

text \<open>Lines 124--156.\<close>

definition txn_planes :: "kms \<Rightarrow> AtomicCommitArgs \<Rightarrow> txn \<Rightarrow> txn attempt" where
  "txn_planes k args t =
     (case composition args of
        None \<Rightarrow> Inr t
      | Some c \<Rightarrow>
          let unused_planes = used_planes (new_frame_state t);
              t0 = t\<lparr>new_frame_state := (new_frame_state t)\<lparr>used_planes := []\<rparr>\<rparr>
          in and_then (bind_plan k (plan c) True unused_planes t0)
               (\<lambda>(unused, t1). disable_unused k unused t1))"

text \<open>Lines 69--156 of \<open>CommitFrame\<close>, in order.\<close>

definition BuildTransaction :: "kms \<Rightarrow> AtomicCommitArgs \<Rightarrow> DrmAtomicStateManager \<Rightarrow> txn attempt" where
  "BuildTransaction k args s =
     and_then (txn_begin k s) (\<lambda>t0.
     and_then (txn_active k args t0) (\<lambda>t1.
     and_then (txn_mode k args t1) (\<lambda>t2.
     and_then (txn_ctm k args t2) (\<lambda>t3.
     txn_planes k args t3))))"

section \<open>Submitting\<close>

text \<open>
  \<open>active_frame_state_ = std::move(staged_frame_state_)\<close>: the vectors and the owned blob
  handles leave the source of the move, the flag is copied.
\<close>

definition moved_from :: "KmsState \<Rightarrow> KmsState" where
  "moved_from f = f\<lparr>used_planes := [], used_framebuffers := [],
                     mode_blob := None, ctm_blob := None\<rparr>"

text \<open>
  \<open>CleanupPriorFrameResources\<close>. The file undefines \<open>NDEBUG\<close>, so a failing \<open>assert\<close>
  aborts the process: the result is \<open>None\<close>.
\<close>

definition CleanupPriorFrameResources :: "DrmAtomicStateManager \<Rightarrow> DrmAtomicStateManager option" where
  "CleanupPriorFrameResources s =
     (if \<not> (frames_staged s - frames_tracked s = 1) then None
      else if last_present_fence s = None then None
      else Some (s\<lparr>frames_tracked := frames_tracked s + 1,
                   active_frame_state := staged_frame_state s,
                   staged_frame_state := moved_from (staged_frame_state s),
                   last_present_fence := None\<rparr>))"

text \<open>Lines 165--177 of \<open>CommitFrame\<close> (traced as \<open>WaitPriorFramePresented\<close>).\<close>

definition WaitPriorFramePresented :: "kms \<Rightarrow> DrmAtomicStateManager
    \<Rightarrow> (DrmAtomicStateManager \<times> event list) option" where
  "WaitPriorFramePresented k s =
     (case last_present_fence s of
        None \<Rightarrow> Some (s, [])
      | Some fd \<Rightarrow>
          let err = sync_wait k fd kTimeoutMs;
              evs = SyncWait fd kTimeoutMs #
                    (if err \<noteq> 0 then [ALOGE (SyncWaitReturned fd err)] else [])
          in (case CleanupPriorFrameResources s of
                None \<Rightarrow> None
              | Some s' \<Rightarrow> Some (s', evs)))"

text \<open>
  What a call leaves behind: the return value, the request (passed by reference and
  modified), the manager, and the external calls made.
\<close>

record outcome =
  ret :: int
  args_after :: AtomicCommitArgs
  dasm_after :: DrmAtomicStateManager
  events :: "event list"

text \<open>Lines 54--57 and 64--67.\<close>

definition drop_same_active :: "AtomicCommitArgs \<Rightarrow> DrmAtomicStateManager \<Rightarrow> AtomicCommitArgs" where
  "drop_same_active args s =
     (if active args = Some (crtc_active_state (active_frame_state s))
      then args\<lparr>active := None\<rparr> else args)"

definition force_activate :: "AtomicCommitArgs \<Rightarrow> DrmAtomicStateManager \<Rightarrow> AtomicCommitArgs" where
  "force_activate args s =
     (if \<not> crtc_active_state (active_frame_state s)
      then args\<lparr>active := Some True\<rparr> else args)"

text \<open>
  \<open>CommitFrame\<close>. \<open>None\<close> is the abort of a failed assertion in
  \<open>CleanupPriorFrameResources\<close>. The wake-up of the tracker (\<open>cv_.notify_all\<close>) is not an
  event: the tracker of the model below may wake at any time.
\<close>

definition CommitFrame :: "kms \<Rightarrow> AtomicCommitArgs \<Rightarrow> DrmAtomicStateManager \<Rightarrow> outcome option" where
  "CommitFrame k args0 s =
     (let args1 = drop_same_active args0 s in
      if \<not> HasInputs k args1
      then Some \<lparr>ret = 0, args_after = args1, dasm_after = s, events = []\<rparr>
      else
        let args = force_activate args1 s in
        (case BuildTransaction k args s of
           Inl (err, evs) \<Rightarrow>
             Some \<lparr>ret = err, args_after = args, dasm_after = s, events = evs\<rparr>
         | Inr t \<Rightarrow>
             let flags = DRM_MODE_ATOMIC_ALLOW_MODESET in
             if test_only args
             then Some \<lparr>ret = fst (drmModeAtomicCommit k (pset t) (flags OR DRM_MODE_ATOMIC_TEST_ONLY)),
                        args_after = args, dasm_after = s,
                        events = trace t @ [AtomicCommit (pset t) (flags OR DRM_MODE_ATOMIC_TEST_ONLY)]\<rparr>
             else
               (case WaitPriorFramePresented k s of
                  None \<Rightarrow> None
                | Some (s1, wevs) \<Rightarrow>
                    let flags = (if nonblock t then flags OR DRM_MODE_ATOMIC_NONBLOCK else flags);
                        err = fst (drmModeAtomicCommit k (pset t) flags);
                        fence = snd (drmModeAtomicCommit k (pset t) flags);
                        evs = trace t @ wevs @ [AtomicCommit (pset t) flags]
                    in if err \<noteq> 0
                       then Some \<lparr>ret = err, args_after = args, dasm_after = s1,
                                  events = evs @ [ALOGE (FailedToCommitPset err)]\<rparr>
                       else
                         let args' = args\<lparr>out_fence := MakeSharedFd k fence\<rparr> in
                         if nonblock t
                         then Some \<lparr>ret = 0, args_after = args',
                                    dasm_after = s1\<lparr>last_present_fence := out_fence args',
                                                    staged_frame_state := new_frame_state t,
                                                    frames_staged := frames_staged s1 + 1\<rparr>,
                                    events = evs\<rparr>
                         else Some \<lparr>ret = 0, args_after = args',
                                    dasm_after = s1\<lparr>active_frame_state := new_frame_state t\<rparr>,
                                    events = evs\<rparr>)))"

text \<open>
  \<open>ExecuteAtomicCommit\<close>. The clean-up request is a value-initialised
  \<open>AtomicCommitArgs\<close> with an empty \<open>DrmKmsPlan\<close>. The collaborators may answer the second
  \<open>CommitFrame\<close> differently from the first: \<open>k\<close> answers the first call, \<open>k'\<close> the second.
\<close>

definition cl_args :: AtomicCommitArgs where
  "cl_args = \<lparr>test_only = False, display_mode = None, active = None,
              composition = Some \<lparr>plan = []\<rparr>, color_matrix = None, out_fence = None\<rparr>"

definition ExecuteAtomicCommit :: "kms \<Rightarrow> kms \<Rightarrow> AtomicCommitArgs \<Rightarrow> DrmAtomicStateManager
    \<Rightarrow> outcome option" where
  "ExecuteAtomicCommit k k' args s =
     (case CommitFrame k args s of
        None \<Rightarrow> None
      | Some r \<Rightarrow>
          if \<not> test_only (args_after r)
          then
            if ret r \<noteq> 0
            then (case CommitFrame k' cl_args (dasm_after r) of
                    None \<Rightarrow> None
                  | Some r' \<Rightarrow>
                      Some \<lparr>ret = ret r, args_after = args_after r, dasm_after = dasm_after r',
                            events = events r @ [ALOGE CompositeFailed] @ events r' @
                              (if ret r' \<noteq> 0 then [ALOGE FailedToCleanUpActiveComposition]
                               else [])\<rparr>)
            else Some r
          else Some r)"

section \<open>The manager and its tracker thread\<close>

text \<open>
  Modelled from the spec: the constructor and the default member initialisers are in the
  header, which is not part of the sources. A fresh manager is in the state \<open>INACTIVE\<close>
  of the spec (``no frame ever committed''): both frame states are empty with the output
  off, no fence is tracked, and both counters are zero.
\<close>

definition empty_frame :: KmsState where
  "empty_frame = \<lparr>used_planes = [], used_framebuffers = [], mode_blob = None,
                   ctm_blob = None, crtc_active_state = False\<rparr>"

definition initial_dasm :: DrmAtomicStateManager where
  "initial_dasm = \<lparr>active_frame_state = empty_frame, staged_frame_state = empty_frame,
                    last_present_fence = None, frames_staged = 0, frames_tracked = 0\<rparr>"

text \<open>
  The locals of \<open>ThreadFn\<close> and the place the thread is at: blocked in \<open>cv_.wait\<close>
  (\<open>Waiting\<close>), between the wake-up that found a fence and the locked block of lines
  243--252 (\<open>Draining\<close>), or past a \<open>break\<close> (\<open>Exited\<close>).
\<close>

datatype thread_pc = Waiting | Draining | Exited

record tracker =
  tracking_at_the_moment :: "32 word"
  present_fence :: SharedFd
  pc :: thread_pc

definition initial_tracker :: tracker where
  "initial_tracker = \<lparr>tracking_at_the_moment = - 1, present_fence = None, pc = Waiting\<rparr>"

text \<open>
  Lines 213--230, one return of \<open>cv_.wait\<close> under \<open>mutex_\<close>. The argument \<open>leave\<close> is the
  value of \<open>exit_thread_ || dasm.use_count() == 1\<close>, which is decided by the owners of the
  manager. \<open>present_fence\<close> is declared inside the loop, so each round starts with an empty
  handle.
\<close>

definition ThreadFn_wake :: "bool \<Rightarrow> DrmAtomicStateManager \<Rightarrow> tracker \<Rightarrow> tracker" where
  "ThreadFn_wake leave s t =
     (let t0 = t\<lparr>present_fence := None\<rparr> in
      if leave then t0\<lparr>pc := Exited\<rparr>
      else if frames_staged s \<le>s tracking_at_the_moment t0 then t0
      else
        let t1 = t0\<lparr>tracking_at_the_moment := frames_staged s,
                    present_fence := last_present_fence s\<rparr>
        in if present_fence t1 = None then t1 else t1\<lparr>pc := Draining\<rparr>)"

text \<open>Lines 232--241: the wait on the fence outside any lock; only its log is observable.\<close>

definition ThreadFn_wait :: "kms \<Rightarrow> tracker \<Rightarrow> event list" where
  "ThreadFn_wait k t =
     (case present_fence t of
        None \<Rightarrow> []
      | Some fd \<Rightarrow>
          SyncWait fd kTimeoutMs #
          (if sync_wait k fd kTimeoutMs \<noteq> 0
           then [ALOGE (SyncWaitReturned fd (sync_wait k fd kTimeoutMs))] else []))"

text \<open>
  Lines 243--252, under the device-wide lock and \<open>mutex_\<close>. \<open>None\<close> is the abort of a
  failed assertion.
\<close>

definition ThreadFn_finish :: "bool \<Rightarrow> DrmAtomicStateManager \<Rightarrow> tracker
    \<Rightarrow> (DrmAtomicStateManager \<times> tracker) option" where
  "ThreadFn_finish exit_thread s t =
     (if exit_thread then Some (s, t\<lparr>pc := Exited\<rparr>)
      else if frames_tracked s <s tracking_at_the_moment t
      then (case CleanupPriorFrameResources s of
              None \<Rightarrow> None
            | Some s' \<Rightarrow> Some (s', t\<lparr>pc := Waiting\<rparr>))
      else Some (s, t\<lparr>pc := Waiting\<rparr>))"

text \<open>
  The kernel's out-fence contract: a successful non-blocking commit with
  \<open>OUT_FENCE_PTR\<close> set leaves a descriptor from which \<open>MakeSharedFd\<close> makes a non-empty
  handle.
\<close>

definition delivers_fence :: "kms \<Rightarrow> bool" where
  "delivers_fence k =
     (\<forall>p. fst (drmModeAtomicCommit k p
                 (DRM_MODE_ATOMIC_ALLOW_MODESET OR DRM_MODE_ATOMIC_NONBLOCK)) = 0 \<longrightarrow>
          MakeSharedFd k (snd (drmModeAtomicCommit k p
                 (DRM_MODE_ATOMIC_ALLOW_MODESET OR DRM_MODE_ATOMIC_NONBLOCK))) \<noteq> None)"

text \<open>
  The states of a manager and its tracker under every interleaving of the two threads;
  the first argument counts the calls of \<open>CommitFrame\<close> made so far.
  Callers hold the device-wide lock during \<open>CommitFrame\<close>, so the locked block of the
  tracker (\<open>finish\<close>) runs between calls only. A wake-up takes \<open>mutex_\<close> alone: it can
  also fall inside a call, after the prior frame has been cleaned up and before the
  locked block of lines 193--198, where it reads the manager as
  \<open>WaitPriorFramePresented\<close> left it (\<open>wake_within_commit\<close>); before the clean-up and after
  line 198 it reads what \<open>wake\<close> reads before or after the call. The clean-up of line 176
  writes without \<open>mutex_\<close>; the read of line 227 is taken to see the manager either
  before or after it. \<open>ExecuteAtomicCommit\<close> is one or two steps \<open>commit\<close>. Spurious
  wake-ups are allowed.
\<close>

inductive reachable :: "nat \<Rightarrow> DrmAtomicStateManager \<Rightarrow> tracker \<Rightarrow> bool" where
  start: "reachable 0 initial_dasm initial_tracker"
| commit: "reachable n s t \<Longrightarrow> delivers_fence k \<Longrightarrow> CommitFrame k args s = Some r \<Longrightarrow>
     reachable (Suc n) (dasm_after r) t"
| wake: "reachable n s t \<Longrightarrow> pc t = Waiting \<Longrightarrow> reachable n s (ThreadFn_wake leave s t)"
| wake_within_commit:
    "reachable n s t \<Longrightarrow> pc t = Waiting \<Longrightarrow> delivers_fence k \<Longrightarrow>
     CommitFrame k args s = Some r \<Longrightarrow> \<not> test_only args \<Longrightarrow>
     HasInputs k (drop_same_active args s) \<Longrightarrow>
     BuildTransaction k (force_activate (drop_same_active args s) s) s = Inr b \<Longrightarrow>
     WaitPriorFramePresented k s = Some (s1, wevs) \<Longrightarrow>
     reachable (Suc n) (dasm_after r) (ThreadFn_wake leave s1 t)"
| finish: "reachable n s t \<Longrightarrow> pc t = Draining \<Longrightarrow>
     ThreadFn_finish exit_thread s t = Some (s', t') \<Longrightarrow> reachable n s' t'"

text \<open>
  The bookkeeping invariant: the counters differ by one, modulo \<open>2^32\<close>, exactly while a
  fence is tracked.
\<close>

definition one_outstanding :: "DrmAtomicStateManager \<Rightarrow> bool" where
  "one_outstanding s =
     (frames_staged s = frames_tracked s + (if last_present_fence s = None then 0 else 1))"

section \<open>What a built transaction contains\<close>

text \<open>
  The functions of this section are not part of the program. They name, for a request and
  a manager state, the properties that lines 69--156 put into the transaction when every
  step succeeds, the blob registrations made on the way, and the frame state produced.
  The lemmas below prove that \<open>BuildTransaction\<close> computes exactly these.
\<close>

text \<open>The plane bindings of a plan; the flag is \<open>most_bottom\<close> for the next entry.\<close>

fun bind_ops :: "nat \<Rightarrow> joining list \<Rightarrow> bool \<Rightarrow> atomic_op list" where
  "bind_ops c [] b = []"
| "bind_ops c (j # js) b = PlaneState (plane j) (layer j) (z_pos j) c b # bind_ops c js False"

definition active_props :: "kms \<Rightarrow> AtomicCommitArgs \<Rightarrow> atomic_op list" where
  "active_props k args =
     (case active args of None \<Rightarrow> []
      | Some a \<Rightarrow> [CrtcActive (if a then 1 else 0), ConnectorCrtcId (GetId k)])"

definition mode_props :: "kms \<Rightarrow> AtomicCommitArgs \<Rightarrow> atomic_op list" where
  "mode_props k args =
     (case display_mode args of None \<Rightarrow> []
      | Some m \<Rightarrow> (case CreateModeBlob k m of None \<Rightarrow> [] | Some b \<Rightarrow> [CrtcMode b]))"

definition ctm_props :: "kms \<Rightarrow> AtomicCommitArgs \<Rightarrow> atomic_op list" where
  "ctm_props k args =
     (case color_matrix args of None \<Rightarrow> []
      | Some c \<Rightarrow>
          if GetCtmProperty k
          then (case RegisterUserPropertyBlob k c of None \<Rightarrow> [] | Some b \<Rightarrow> [CrtcCtm b])
          else [])"

definition plane_props :: "kms \<Rightarrow> AtomicCommitArgs \<Rightarrow> DrmAtomicStateManager \<Rightarrow> atomic_op list" where
  "plane_props k args s =
     (case composition args of None \<Rightarrow> []
      | Some c \<Rightarrow>
          bind_ops (GetId k) (plan c) True @
          map PlaneDisable
            (filter (\<lambda>p. p \<notin> plane ` set (plan c)) (used_planes (active_frame_state s))))"

definition blob_calls :: "kms \<Rightarrow> AtomicCommitArgs \<Rightarrow> event list" where
  "blob_calls k args =
     (case display_mode args of None \<Rightarrow> [] | Some m \<Rightarrow> [CreateModeBlobCall m]) @
     (case color_matrix args of None \<Rightarrow> []
      | Some c \<Rightarrow> if GetCtmProperty k then [RegisterUserPropertyBlobCall c] else [])"

definition built_frame_state :: "kms \<Rightarrow> AtomicCommitArgs \<Rightarrow> DrmAtomicStateManager \<Rightarrow> KmsState" where
  "built_frame_state k args s =
     \<lparr>used_planes = (case composition args of
                        None \<Rightarrow> used_planes (active_frame_state s)
                      | Some c \<Rightarrow> map plane (plan c)),
      used_framebuffers = (case composition args of
                        None \<Rightarrow> []
                      | Some c \<Rightarrow> map (\<lambda>j. fb (layer j)) (plan c)),
      mode_blob = (case display_mode args of None \<Rightarrow> None | Some m \<Rightarrow> CreateModeBlob k m),
      ctm_blob = (case color_matrix args of None \<Rightarrow> None
                  | Some c \<Rightarrow> if GetCtmProperty k then RegisterUserPropertyBlob k c else None),
      crtc_active_state = (case active args of
                        None \<Rightarrow> crtc_active_state (active_frame_state s)
                      | Some a \<Rightarrow> a)\<rparr>"

text \<open>A list of events without a fence wait and without a commit.\<close>

definition quiet :: "event list \<Rightarrow> bool" where
  "quiet evs = (\<forall>e \<in> set evs. case e of AtomicCommit p f \<Rightarrow> False | SyncWait a b \<Rightarrow> False | _ \<Rightarrow> True)"

text \<open>
  Collaborators that refuse nothing a request needs: the property set is allocated, every
  property and plane call succeeds, and the blobs the request asks for can be created.
\<close>

definition accepts :: "kms \<Rightarrow> AtomicCommitArgs \<Rightarrow> bool" where
  "accepts k args =
     (MakeDrmModeAtomicReqUnique k \<and>
      (\<forall>p x. AtomicSet k p x) \<and>
      (\<forall>p q l z c b. AtomicSetState k p q l z c b = 0) \<and>
      (\<forall>p q. AtomicDisablePlane k p q = 0) \<and>
      (\<forall>m. display_mode args = Some m \<longrightarrow> CreateModeBlob k m \<noteq> None) \<and>
      (\<forall>c. color_matrix args = Some c \<longrightarrow> GetCtmProperty k \<longrightarrow>
           RegisterUserPropertyBlob k c \<noteq> None))"

section \<open>Concrete collaborators, requests and states\<close>

text \<open>
  Collaborators that accept every call. The atomic commit leaves descriptor \<open>7\<close> in
  \<open>out_fence\<close> unless it is a test-only commit, and a request has inputs when it carries
  a mode, an active flag or a composition.
\<close>

definition accepting :: kms where
  "accepting =
     \<lparr>HasInputs = (\<lambda>a. display_mode a \<noteq> None \<or> active a \<noteq> None \<or> composition a \<noteq> None),
      MakeDrmModeAtomicReqUnique = True,
      AtomicSet = (\<lambda>p x. True),
      AtomicSetState = (\<lambda>p q l z c b. 0),
      AtomicDisablePlane = (\<lambda>p q. 0),
      CreateModeBlob = (\<lambda>m. Some (100 + m)),
      RegisterUserPropertyBlob = (\<lambda>c. Some 200),
      GetCtmProperty = True,
      GetId = 31,
      drmModeAtomicCommit = (\<lambda>p f. (0, if f AND DRM_MODE_ATOMIC_TEST_ONLY = 0 then 7 else - 1)),
      sync_wait = (\<lambda>fd ms. 0),
      MakeSharedFd = (\<lambda>fd. if fd < 0 then None else Some fd)\<rparr>"

text \<open>
  Variants: a kernel that rejects every commit with \<open>-EBUSY\<close>, one that rejects with
  \<open>-EACCES\<close>, a fence wait that times out, and a CRTC without a \<open>CTM\<close> property.
\<close>

definition rejecting :: kms where
  "rejecting = accepting\<lparr>drmModeAtomicCommit := (\<lambda>p f. (- 16, - 1))\<rparr>"

definition refusing :: kms where
  "refusing = accepting\<lparr>drmModeAtomicCommit := (\<lambda>p f. (- 13, - 1))\<rparr>"

definition timing_out :: kms where
  "timing_out = accepting\<lparr>sync_wait := (\<lambda>fd ms. - 1)\<rparr>"

definition no_ctm :: kms where
  "no_ctm = accepting\<lparr>GetCtmProperty := False\<rparr>"

text \<open>
  Scenarios 1 and 2 of the spec: switching the output on with a mode and an empty plan,
  then binding one plane.
\<close>

definition request_on :: AtomicCommitArgs where
  "request_on = \<lparr>test_only = False, display_mode = Some 1, active = Some True,
                  composition = Some \<lparr>plan = []\<rparr>, color_matrix = None, out_fence = None\<rparr>"

definition request_plane :: AtomicCommitArgs where
  "request_plane = \<lparr>test_only = False, display_mode = None, active = None,
                  composition = Some \<lparr>plan = [\<lparr>plane = 5, layer = \<lparr>fb = Some 9\<rparr>, z_pos = 0\<rparr>]\<rparr>,
                  color_matrix = None, out_fence = None\<rparr>"

text \<open>Further requests: each changes what its name says and nothing else.\<close>

definition request_mode :: AtomicCommitArgs where
  "request_mode = \<lparr>test_only = False, display_mode = Some 2, active = None,
                    composition = None, color_matrix = None, out_fence = None\<rparr>"

definition request_on_again :: AtomicCommitArgs where
  "request_on_again = \<lparr>test_only = False, display_mode = None, active = Some True,
                  composition = None, color_matrix = None, out_fence = None\<rparr>"

definition request_on_plane :: AtomicCommitArgs where
  "request_on_plane = request_plane\<lparr>active := Some True\<rparr>"

definition request_test :: AtomicCommitArgs where
  "request_test = request_plane\<lparr>test_only := True\<rparr>"

definition request_swap :: AtomicCommitArgs where
  "request_swap = \<lparr>test_only = False, display_mode = None, active = None,
                  composition = Some \<lparr>plan = [\<lparr>plane = 6, layer = \<lparr>fb = Some 10\<rparr>, z_pos = 0\<rparr>,
                                              \<lparr>plane = 8, layer = \<lparr>fb = Some 11\<rparr>, z_pos = 1\<rparr>]\<rparr>,
                  color_matrix = None, out_fence = None\<rparr>"

definition request_ctm :: AtomicCommitArgs where
  "request_ctm = \<lparr>test_only = False, display_mode = None, active = None,
                   composition = Some \<lparr>plan = []\<rparr>,
                   color_matrix = Some [1, 0, 0, 0, 1, 0, 0, 0, 1], out_fence = None\<rparr>"

definition request_mode_ctm :: AtomicCommitArgs where
  "request_mode_ctm = \<lparr>test_only = False, display_mode = Some 2, active = None,
                   composition = None,
                   color_matrix = Some [1, 0, 0, 0, 1, 0, 0, 0, 1], out_fence = None\<rparr>"

text \<open>
  The manager after scenario 1 (\<open>dasm_on\<close>), after scenario 2 (\<open>dasm_staged\<close>, one frame
  staged behind fence \<open>7\<close>), and after that frame has been promoted (\<open>dasm_promoted\<close>);
  a tracker that has woken up for the staged frame.
\<close>

definition dasm_on :: DrmAtomicStateManager where
  "dasm_on = \<lparr>active_frame_state = \<lparr>used_planes = [], used_framebuffers = [], mode_blob = Some 101,
                   ctm_blob = None, crtc_active_state = True\<rparr>,
               staged_frame_state = empty_frame,
               last_present_fence = None, frames_staged = 0, frames_tracked = 0\<rparr>"

definition dasm_staged :: DrmAtomicStateManager where
  "dasm_staged = \<lparr>active_frame_state = \<lparr>used_planes = [], used_framebuffers = [], mode_blob = Some 101,
                   ctm_blob = None, crtc_active_state = True\<rparr>,
               staged_frame_state = \<lparr>used_planes = [5], used_framebuffers = [Some 9], mode_blob = None,
                   ctm_blob = None, crtc_active_state = True\<rparr>,
               last_present_fence = Some 7, frames_staged = 1, frames_tracked = 0\<rparr>"

definition dasm_promoted :: DrmAtomicStateManager where
  "dasm_promoted = \<lparr>active_frame_state = \<lparr>used_planes = [5], used_framebuffers = [Some 9],
                   mode_blob = None, ctm_blob = None, crtc_active_state = True\<rparr>,
               staged_frame_state = \<lparr>used_planes = [], used_framebuffers = [], mode_blob = None,
                   ctm_blob = None, crtc_active_state = True\<rparr>,
               last_present_fence = None, frames_staged = 1, frames_tracked = 1\<rparr>"

definition tracker_draining :: tracker where
  "tracker_draining = \<lparr>tracking_at_the_moment = 1, present_fence = Some 7, pc = Draining\<rparr>"

text \<open>
  The promoted state with both counters at \<open>n\<close> and the tracker that has just promoted
  frame \<open>n\<close>; the same state with both counters at \<open>INT_MIN\<close>, and a tracker that woke
  up for frame \<open>INT_MAX\<close>.
\<close>

definition dasm_promoted_at :: "nat \<Rightarrow> DrmAtomicStateManager" where
  "dasm_promoted_at n = dasm_promoted\<lparr>frames_staged := of_nat n, frames_tracked := of_nat n\<rparr>"

definition tracker_waiting_at :: "nat \<Rightarrow> tracker" where
  "tracker_waiting_at n =
     \<lparr>tracking_at_the_moment = of_nat n, present_fence = Some 7, pc = Waiting\<rparr>"

definition dasm_wrapped :: DrmAtomicStateManager where
  "dasm_wrapped = dasm_promoted\<lparr>frames_staged := 0x80000000, frames_tracked := 0x80000000\<rparr>"

definition tracker_at_max :: tracker where
  "tracker_at_max = \<lparr>tracking_at_the_moment = 0x7FFFFFFF, present_fence = Some 7, pc = Draining\<rparr>"

section \<open>Facts about the transaction builder\<close>

text \<open>
  Each step of \<open>BuildTransaction\<close> either fails with an errno or extends the property set.
  A successful build yields exactly the properties, blob calls and frame state named
  above; a failed one returns \<open>-ENOMEM\<close> or \<open>-EINVAL\<close> and has made blob calls and log
  entries only.
\<close>

lemma bind_plan_Inr:
  "bind_plan k js b u t = Inr (u', t') \<Longrightarrow>
     pset t' = pset t @ bind_ops (GetId k) js b \<and>
     u' = filter (\<lambda>p. p \<notin> plane ` set js) u \<and>
     trace t' = trace t \<and> nonblock t' = nonblock t \<and>
     used_planes (new_frame_state t') = used_planes (new_frame_state t) @ map plane js \<and>
     used_framebuffers (new_frame_state t') =
       used_framebuffers (new_frame_state t) @ map (\<lambda>j. fb (layer j)) js \<and>
     mode_blob (new_frame_state t') = mode_blob (new_frame_state t) \<and>
     ctm_blob (new_frame_state t') = ctm_blob (new_frame_state t) \<and>
     crtc_active_state (new_frame_state t') = crtc_active_state (new_frame_state t)"
proof (induction js arbitrary: b u t)
  case Nil
  then show ?case by simp
next
  case (Cons j js)
  let ?t = "t\<lparr>pset := pset t @ [PlaneState (plane j) (layer j) (z_pos j) (GetId k) b],
               new_frame_state := (new_frame_state t)
                 \<lparr>used_framebuffers := used_framebuffers (new_frame_state t) @ [fb (layer j)],
                  used_planes := used_planes (new_frame_state t) @ [plane j]\<rparr>\<rparr>"
  from Cons.prems have rec: "bind_plan k js False (removeAll (plane j) u) ?t = Inr (u', t')"
    by (simp add: Let_def split: if_splits)
  have flt: "filter (\<lambda>p. p \<notin> plane ` set js) (removeAll (plane j) u) =
             filter (\<lambda>p. p \<notin> plane ` set (j # js)) u"
    by (induction u) auto
  from Cons.IH [OF rec] flt show ?case by simp
qed

lemma bind_plan_Inl:
  "bind_plan k js b u t = Inl e \<Longrightarrow> e = (- EINVAL, trace t)"
proof (induction js arbitrary: b u t)
  case Nil
  then show ?case by simp
next
  case (Cons j js)
  from Cons.prems show ?case
    by (auto simp: Let_def split: if_splits dest!: Cons.IH)
qed

lemma disable_unused_Inr:
  "disable_unused k ps t = Inr t' \<Longrightarrow>
     pset t' = pset t @ map PlaneDisable ps \<and> trace t' = trace t \<and>
     nonblock t' = nonblock t \<and> new_frame_state t' = new_frame_state t"
  by (induction ps arbitrary: t) (auto split: if_splits)

lemma disable_unused_Inl:
  "disable_unused k ps t = Inl e \<Longrightarrow> e = (- EINVAL, trace t)"
proof (induction ps arbitrary: t)
  case Nil
  then show ?case by simp
next
  case (Cons p ps)
  from Cons.prems show ?case
    by (auto split: if_splits dest!: Cons.IH)
qed

lemma txn_begin_Inr:
  "txn_begin k s = Inr t \<Longrightarrow>
     t = \<lparr>pset = [OutFencePtr], new_frame_state = NewFrameState s, nonblock = True, trace = []\<rparr>"
  by (auto simp: txn_begin_def split: if_splits)

lemma txn_active_Inr:
  "txn_active k args t = Inr t' \<Longrightarrow>
     pset t' = pset t @ active_props k args \<and> trace t' = trace t \<and>
     nonblock t' = (nonblock t \<and> active args = None) \<and>
     new_frame_state t' = (new_frame_state t)
       \<lparr>crtc_active_state := (case active args of
            None \<Rightarrow> crtc_active_state (new_frame_state t) | Some a \<Rightarrow> a)\<rparr>"
  by (auto simp: txn_active_def active_props_def Let_def split: option.splits if_splits)

lemma txn_mode_Inr:
  "txn_mode k args t = Inr t' \<Longrightarrow>
     pset t' = pset t @ mode_props k args \<and>
     trace t' = trace t @ (case display_mode args of None \<Rightarrow> [] | Some m \<Rightarrow> [CreateModeBlobCall m]) \<and>
     nonblock t' = nonblock t \<and>
     (\<forall>m. display_mode args = Some m \<longrightarrow> CreateModeBlob k m \<noteq> None) \<and>
     new_frame_state t' = (new_frame_state t)
       \<lparr>mode_blob := (case display_mode args of
            None \<Rightarrow> mode_blob (new_frame_state t) | Some m \<Rightarrow> CreateModeBlob k m)\<rparr>"
  by (auto simp: txn_mode_def mode_props_def Let_def split: option.splits if_splits)

lemma txn_ctm_Inr:
  "txn_ctm k args t = Inr t' \<Longrightarrow>
     pset t' = pset t @ ctm_props k args \<and>
     trace t' = trace t @ (case color_matrix args of None \<Rightarrow> []
        | Some c \<Rightarrow> if GetCtmProperty k then [RegisterUserPropertyBlobCall c] else []) \<and>
     nonblock t' = nonblock t \<and>
     (\<forall>c. color_matrix args = Some c \<longrightarrow> GetCtmProperty k \<longrightarrow> RegisterUserPropertyBlob k c \<noteq> None) \<and>
     new_frame_state t' = (new_frame_state t)
       \<lparr>ctm_blob := (case color_matrix args of
            None \<Rightarrow> ctm_blob (new_frame_state t)
          | Some c \<Rightarrow> if GetCtmProperty k then RegisterUserPropertyBlob k c
                      else ctm_blob (new_frame_state t))\<rparr>"
  by (auto simp: txn_ctm_def ctm_props_def Let_def split: option.splits if_splits)

lemma txn_planes_Inr:
  "txn_planes k args t = Inr t' \<Longrightarrow>
     pset t' = pset t @
       (case composition args of None \<Rightarrow> []
        | Some c \<Rightarrow> bind_ops (GetId k) (plan c) True @
            map PlaneDisable (filter (\<lambda>p. p \<notin> plane ` set (plan c)) (used_planes (new_frame_state t)))) \<and>
     trace t' = trace t \<and> nonblock t' = nonblock t \<and>
     used_planes (new_frame_state t') =
       (case composition args of None \<Rightarrow> used_planes (new_frame_state t)
        | Some c \<Rightarrow> map plane (plan c)) \<and>
     used_framebuffers (new_frame_state t') =
       (case composition args of None \<Rightarrow> used_framebuffers (new_frame_state t)
        | Some c \<Rightarrow> used_framebuffers (new_frame_state t) @ map (\<lambda>j. fb (layer j)) (plan c)) \<and>
     mode_blob (new_frame_state t') = mode_blob (new_frame_state t) \<and>
     ctm_blob (new_frame_state t') = ctm_blob (new_frame_state t) \<and>
     crtc_active_state (new_frame_state t') = crtc_active_state (new_frame_state t)"
proof (cases "composition args")
  case None
  assume "txn_planes k args t = Inr t'"
  with None show ?thesis by (simp add: txn_planes_def)
next
  case (Some c)
  assume a: "txn_planes k args t = Inr t'"
  let ?t0 = "t\<lparr>new_frame_state := (new_frame_state t)\<lparr>used_planes := []\<rparr>\<rparr>"
  from a Some obtain u t1 where
    b: "bind_plan k (plan c) True (used_planes (new_frame_state t)) ?t0 = Inr (u, t1)" and
    d: "disable_unused k u t1 = Inr t'"
    by (auto simp: txn_planes_def and_then_def Let_def split: sum.splits)
  from bind_plan_Inr [OF b] disable_unused_Inr [OF d] Some show ?thesis
    by simp
qed

lemma BuildTransaction_Inr:
  assumes "BuildTransaction k args s = Inr t"
  shows "pset t = OutFencePtr # active_props k args @ mode_props k args @ ctm_props k args @
                    plane_props k args s"
    and "nonblock t = (active args = None)"
    and "trace t = blob_calls k args"
    and "new_frame_state t = built_frame_state k args s"
proof -
  from assms obtain t0 t1 t2 t3 where
    0: "txn_begin k s = Inr t0" and 1: "txn_active k args t0 = Inr t1" and
    2: "txn_mode k args t1 = Inr t2" and 3: "txn_ctm k args t2 = Inr t3" and
    4: "txn_planes k args t3 = Inr t"
    by (auto simp: BuildTransaction_def and_then_def split: sum.splits)
  note f = txn_begin_Inr [OF 0] txn_active_Inr [OF 1] txn_mode_Inr [OF 2] txn_ctm_Inr [OF 3]
    txn_planes_Inr [OF 4]
  from f show "pset t = OutFencePtr # active_props k args @ mode_props k args @ ctm_props k args @
                    plane_props k args s"
    by (simp add: plane_props_def NewFrameState_def split: option.splits)
  from f show "nonblock t = (active args = None)" by simp
  from f show "trace t = blob_calls k args" by (simp add: blob_calls_def)
  have "used_planes (new_frame_state t) = used_planes (built_frame_state k args s)"
    using f by (simp add: built_frame_state_def NewFrameState_def split: option.splits)
  moreover have "used_framebuffers (new_frame_state t) = used_framebuffers (built_frame_state k args s)"
    using f by (simp add: built_frame_state_def NewFrameState_def split: option.splits)
  moreover have "mode_blob (new_frame_state t) = mode_blob (built_frame_state k args s)"
    using f by (simp add: built_frame_state_def NewFrameState_def split: option.splits)
  moreover have "ctm_blob (new_frame_state t) = ctm_blob (built_frame_state k args s)"
    using f by (simp add: built_frame_state_def NewFrameState_def split: option.splits)
  moreover have "crtc_active_state (new_frame_state t) = crtc_active_state (built_frame_state k args s)"
    using f by (simp add: built_frame_state_def NewFrameState_def split: option.splits)
  ultimately show "new_frame_state t = built_frame_state k args s"
    by (simp add: KmsState.equality)
qed

lemma BuildTransaction_blobs:
  assumes "BuildTransaction k args s = Inr t"
  shows "display_mode args = Some m \<Longrightarrow> CreateModeBlob k m \<noteq> None"
    and "color_matrix args = Some c \<Longrightarrow> GetCtmProperty k \<Longrightarrow> RegisterUserPropertyBlob k c \<noteq> None"
proof -
  from assms obtain t0 t1 t2 t3 where
    2: "txn_mode k args t1 = Inr t2" and 3: "txn_ctm k args t2 = Inr t3"
    by (auto simp: BuildTransaction_def and_then_def split: sum.splits)
  from txn_mode_Inr [OF 2] show "display_mode args = Some m \<Longrightarrow> CreateModeBlob k m \<noteq> None"
    by blast
  from txn_ctm_Inr [OF 3]
  show "color_matrix args = Some c \<Longrightarrow> GetCtmProperty k \<Longrightarrow> RegisterUserPropertyBlob k c \<noteq> None"
    by blast
qed

lemma quiet_simps [simp]:
  "quiet []"
  "quiet (e # evs) = ((case e of AtomicCommit p f \<Rightarrow> False | SyncWait a b \<Rightarrow> False | _ \<Rightarrow> True) \<and> quiet evs)"
  "quiet (xs @ ys) = (quiet xs \<and> quiet ys)"
  by (auto simp: quiet_def)

lemma quiet_no_commit: "quiet evs \<Longrightarrow> AtomicCommit p f \<notin> set evs"
  by (auto simp: quiet_def)

lemma quiet_blob_calls [simp]: "quiet (blob_calls k args)"
  by (simp add: blob_calls_def split: option.splits)

lemma blob_calls_no_commit [simp]: "AtomicCommit p f \<notin> set (blob_calls k args)"
  by (rule quiet_no_commit) simp

lemma txn_begin_Inl:
  "txn_begin k s = Inl (e, evs) \<Longrightarrow> (e = - ENOMEM \<or> e = - EINVAL) \<and> quiet evs"
  by (auto simp: txn_begin_def split: if_splits)

lemma txn_active_Inl:
  "txn_active k args t = Inl (e, evs) \<Longrightarrow> e = - EINVAL \<and> evs = trace t"
  by (auto simp: txn_active_def Let_def split: option.splits if_splits)

lemma txn_mode_Inl:
  "txn_mode k args t = Inl (e, evs) \<Longrightarrow> e = - EINVAL \<and> (quiet (trace t) \<longrightarrow> quiet evs)"
  by (auto simp: txn_mode_def Let_def split: option.splits if_splits)

lemma txn_ctm_Inl:
  "txn_ctm k args t = Inl (e, evs) \<Longrightarrow> e = - EINVAL \<and> (quiet (trace t) \<longrightarrow> quiet evs)"
  by (auto simp: txn_ctm_def Let_def split: option.splits if_splits)

lemma txn_planes_Inl:
  "txn_planes k args t = Inl (e, evs) \<Longrightarrow> e = - EINVAL \<and> evs = trace t"
  by (auto simp: txn_planes_def and_then_def Let_def
      split: option.splits sum.splits dest!: bind_plan_Inl disable_unused_Inl bind_plan_Inr)

lemma txn_quiet:
  "txn_begin k s = Inr t0 \<Longrightarrow> quiet (trace t0)"
  "txn_active k args t = Inr t' \<Longrightarrow> quiet (trace t) \<Longrightarrow> quiet (trace t')"
  "txn_mode k args t = Inr t' \<Longrightarrow> quiet (trace t) \<Longrightarrow> quiet (trace t')"
  "txn_ctm k args t = Inr t' \<Longrightarrow> quiet (trace t) \<Longrightarrow> quiet (trace t')"
  by (auto dest!: txn_begin_Inr txn_active_Inr txn_mode_Inr txn_ctm_Inr split: option.splits)

lemma BuildTransaction_Inl:
  assumes "BuildTransaction k args s = Inl (e, evs)"
  shows "(e = - ENOMEM \<or> e = - EINVAL) \<and> quiet evs"
proof (cases "txn_begin k s")
  case (Inl x)
  with assms show ?thesis
    by (auto simp: BuildTransaction_def and_then_def dest!: txn_begin_Inl)
next
  case 0: (Inr t0)
  note q0 = txn_quiet(1) [OF 0]
  show ?thesis
  proof (cases "txn_active k args t0")
    case (Inl x)
    with assms 0 q0 show ?thesis
      by (auto simp: BuildTransaction_def and_then_def dest!: txn_active_Inl)
  next
    case 1: (Inr t1)
    note q1 = txn_quiet(2) [OF 1 q0]
    show ?thesis
    proof (cases "txn_mode k args t1")
      case (Inl x)
      with assms 0 1 q1 show ?thesis
        by (auto simp: BuildTransaction_def and_then_def dest!: txn_mode_Inl)
    next
      case 2: (Inr t2)
      note q2 = txn_quiet(3) [OF 2 q1]
      show ?thesis
      proof (cases "txn_ctm k args t2")
        case (Inl x)
        with assms 0 1 2 q2 show ?thesis
          by (auto simp: BuildTransaction_def and_then_def dest!: txn_ctm_Inl)
      next
        case 3: (Inr t3)
        note q3 = txn_quiet(4) [OF 3 q2]
        from assms 0 1 2 3 q3 show ?thesis
          by (auto simp: BuildTransaction_def and_then_def dest!: txn_planes_Inl)
      qed
    qed
  qed
qed

lemma txn_mode_Inl_events:
  "txn_mode k args t = Inl (e, evs) \<Longrightarrow>
     set evs \<subseteq> set (trace t) \<union>
        set (case display_mode args of None \<Rightarrow> [] | Some m \<Rightarrow> [CreateModeBlobCall m]) \<union> range ALOGE"
  by (cases "display_mode args")
    (auto simp: txn_mode_def Let_def split: option.splits if_splits)

lemma txn_ctm_Inl_events:
  "txn_ctm k args t = Inl (e, evs) \<Longrightarrow>
     set evs \<subseteq> set (trace t) \<union>
        set (case color_matrix args of None \<Rightarrow> []
             | Some c \<Rightarrow> if GetCtmProperty k then [RegisterUserPropertyBlobCall c] else []) \<union>
        range ALOGE"
  by (cases "color_matrix args")
    (auto simp: txn_ctm_def Let_def split: option.splits if_splits)

lemma BuildTransaction_Inl_events:
  assumes "BuildTransaction k args s = Inl (e, evs)"
  shows "set evs \<subseteq> set (blob_calls k args) \<union> range ALOGE"
proof (cases "txn_begin k s")
  case (Inl x)
  with assms show ?thesis
    by (auto simp: BuildTransaction_def and_then_def txn_begin_def split: if_splits)
next
  case 0: (Inr t0)
  have q0: "trace t0 = []" using txn_begin_Inr [OF 0] by simp
  show ?thesis
  proof (cases "txn_active k args t0")
    case (Inl x)
    with assms 0 q0 show ?thesis
      by (auto simp: BuildTransaction_def and_then_def dest!: txn_active_Inl)
  next
    case 1: (Inr t1)
    have q1: "trace t1 = []" using txn_active_Inr [OF 1] q0 by simp
    show ?thesis
    proof (cases "txn_mode k args t1")
      case (Inl x)
      with assms 0 1 have "txn_mode k args t1 = Inl (e, evs)"
        by (simp add: BuildTransaction_def and_then_def)
      from txn_mode_Inl_events [OF this] q1 show ?thesis
        by (auto simp: blob_calls_def)
    next
      case 2: (Inr t2)
      have q2: "trace t2 = (case display_mode args of None \<Rightarrow> [] | Some m \<Rightarrow> [CreateModeBlobCall m])"
        using txn_mode_Inr [OF 2] q1 by simp
      show ?thesis
      proof (cases "txn_ctm k args t2")
        case (Inl x)
        with assms 0 1 2 have "txn_ctm k args t2 = Inl (e, evs)"
          by (simp add: BuildTransaction_def and_then_def)
        from txn_ctm_Inl_events [OF this] q2 show ?thesis
          by (auto simp: blob_calls_def)
      next
        case 3: (Inr t3)
        have q3: "trace t3 = blob_calls k args"
          using txn_ctm_Inr [OF 3] q2 by (simp add: blob_calls_def)
        from assms 0 1 2 3 have "txn_planes k args t3 = Inl (e, evs)"
          by (simp add: BuildTransaction_def and_then_def)
        from txn_planes_Inl [OF this] q3 show ?thesis by auto
      qed
    qed
  qed
qed

lemma bind_ops_length [simp]: "length (bind_ops c js b) = length js"
  by (induction js arbitrary: b) auto

lemma bind_ops_nth:
  "i < length js \<Longrightarrow>
   bind_ops c js b ! i =
     PlaneState (plane (js ! i)) (layer (js ! i)) (z_pos (js ! i)) c (if i = 0 then b else False)"
proof (induction js arbitrary: b i)
  case Nil
  then show ?case by simp
next
  case (Cons j js)
  then show ?case by (cases i) auto
qed

lemma bind_ops_set:
  "x \<in> set (bind_ops c js b) \<Longrightarrow> \<exists>q l z m. x = PlaneState q l z c m"
  by (induction js arbitrary: b) auto

lemma active_props_set:
  "x \<in> set (active_props k args) \<Longrightarrow>
     (\<exists>a. active args = Some a \<and> (x = CrtcActive (if a then 1 else 0) \<or> x = ConnectorCrtcId (GetId k)))"
  by (cases "active args") (simp_all add: active_props_def)

lemma mode_props_set:
  "x \<in> set (mode_props k args) \<Longrightarrow> \<exists>b. x = CrtcMode b"
proof (cases "display_mode args")
  case None
  assume "x \<in> set (mode_props k args)"
  with None show ?thesis by (simp add: mode_props_def)
next
  case (Some m)
  assume "x \<in> set (mode_props k args)"
  with Some show ?thesis
    by (cases "CreateModeBlob k m") (simp_all add: mode_props_def)
qed

lemma ctm_props_set:
  "x \<in> set (ctm_props k args) \<Longrightarrow> \<exists>b. x = CrtcCtm b"
proof (cases "color_matrix args")
  case None
  assume "x \<in> set (ctm_props k args)"
  with None show ?thesis by (simp add: ctm_props_def)
next
  case (Some c)
  assume "x \<in> set (ctm_props k args)"
  with Some show ?thesis
    by (cases "GetCtmProperty k"; cases "RegisterUserPropertyBlob k c") (simp_all add: ctm_props_def)
qed

lemma plane_props_set:
  "x \<in> set (plane_props k args s) \<Longrightarrow>
     (\<exists>q l z c m. x = PlaneState q l z c m) \<or> (\<exists>q. x = PlaneDisable q)"
proof (cases "composition args")
  case None
  assume "x \<in> set (plane_props k args s)"
  with None show ?thesis by (simp add: plane_props_def)
next
  case (Some c)
  assume "x \<in> set (plane_props k args s)"
  with Some show ?thesis
    by (auto simp: plane_props_def dest: bind_ops_set)
qed

lemma built_prefix_no_plane_ops:
  assumes "x \<in> set (OutFencePtr # active_props k args @ mode_props k args @ ctm_props k args)"
  shows "(\<forall>q l z c b. x \<noteq> PlaneState q l z c b) \<and> (\<forall>q. x \<noteq> PlaneDisable q)"
  using assms by (auto dest: active_props_set mode_props_set ctm_props_set)

lemma CrtcActive_in_built:
  assumes "BuildTransaction k args s = Inr t"
  shows "CrtcActive v \<in> set (pset t) \<longleftrightarrow> (\<exists>a. active args = Some a \<and> v = (if a then 1 else 0))"
proof -
  have "CrtcActive v \<in> set (active_props k args) \<longleftrightarrow>
        (\<exists>a. active args = Some a \<and> v = (if a then 1 else 0))"
    by (cases "active args") (auto simp: active_props_def)
  then show ?thesis
    unfolding BuildTransaction_Inr(1) [OF assms]
    by (auto dest: mode_props_set ctm_props_set plane_props_set)
qed

section \<open>Facts about \<open>CommitFrame\<close>\<close>

text \<open>
  \<open>CommitFrame_cases\<close> lists the six ways a call can return: nothing to do, a failed
  build, a test-only commit, a rejected commit, a staged frame, an installed frame.
\<close>

lemma test_only_drop [simp]: "test_only (drop_same_active args s) = test_only args"
  "composition (drop_same_active args s) = composition args"
  "display_mode (drop_same_active args s) = display_mode args"
  "color_matrix (drop_same_active args s) = color_matrix args"
  "out_fence (drop_same_active args s) = out_fence args"
  by (simp_all add: drop_same_active_def)

lemma test_only_force [simp]: "test_only (force_activate args s) = test_only args"
  "composition (force_activate args s) = composition args"
  "display_mode (force_activate args s) = display_mode args"
  "color_matrix (force_activate args s) = color_matrix args"
  "out_fence (force_activate args s) = out_fence args"
  by (simp_all add: force_activate_def)

lemma active_effective:
  "active (force_activate (drop_same_active args s) s) =
     (if \<not> crtc_active_state (active_frame_state s) then Some True
      else if active args = Some False then Some False else None)"
  by (cases "active args") (auto simp: force_activate_def drop_same_active_def)

lemma blob_calls_effective [simp]:
  "blob_calls k (force_activate (drop_same_active args s) s) = blob_calls k args"
  by (simp add: blob_calls_def)

lemma flag_bits [simp]:
  "(DRM_MODE_ATOMIC_ALLOW_MODESET OR DRM_MODE_ATOMIC_NONBLOCK) AND DRM_MODE_ATOMIC_NONBLOCK \<noteq> 0"
  "DRM_MODE_ATOMIC_ALLOW_MODESET AND DRM_MODE_ATOMIC_NONBLOCK = 0"
  "(DRM_MODE_ATOMIC_ALLOW_MODESET OR DRM_MODE_ATOMIC_TEST_ONLY) AND DRM_MODE_ATOMIC_NONBLOCK = 0"
  "(DRM_MODE_ATOMIC_ALLOW_MODESET OR DRM_MODE_ATOMIC_TEST_ONLY) AND DRM_MODE_ATOMIC_TEST_ONLY \<noteq> 0"
  "DRM_MODE_ATOMIC_ALLOW_MODESET OR DRM_MODE_ATOMIC_NONBLOCK \<noteq> DRM_MODE_ATOMIC_ALLOW_MODESET"
  "DRM_MODE_ATOMIC_NONBLOCK \<noteq> 0"
  "DRM_MODE_ATOMIC_TEST_ONLY \<noteq> 0"
  by (simp_all add: DRM_MODE_ATOMIC_ALLOW_MODESET_def DRM_MODE_ATOMIC_NONBLOCK_def
      DRM_MODE_ATOMIC_TEST_ONLY_def)

lemma WaitPriorFramePresented_Some:
  assumes "WaitPriorFramePresented k s = Some (s1, wevs)"
  shows "(last_present_fence s = None \<and> s1 = s \<and> wevs = []) \<or>
         (\<exists>fd. last_present_fence s = Some fd \<and> CleanupPriorFrameResources s = Some s1 \<and>
            wevs = SyncWait fd kTimeoutMs #
              (if sync_wait k fd kTimeoutMs \<noteq> 0
               then [ALOGE (SyncWaitReturned fd (sync_wait k fd kTimeoutMs))] else []))"
  using assms by (auto simp: WaitPriorFramePresented_def Let_def split: option.splits)

lemma WaitPriorFramePresented_no_commit:
  "WaitPriorFramePresented k s = Some (s1, wevs) \<Longrightarrow> AtomicCommit p f \<notin> set wevs"
  by (auto dest!: WaitPriorFramePresented_Some split: if_splits)

lemma WaitPriorFramePresented_staged:
  "WaitPriorFramePresented k s = Some (s1, wevs) \<Longrightarrow> frames_staged s1 = frames_staged s"
  by (auto dest!: WaitPriorFramePresented_Some simp: CleanupPriorFrameResources_def split: if_splits)

lemma CommitFrame_cases [consumes 1, case_names noop build_failed test rejected staged installed]:
  assumes "CommitFrame k args0 s = Some r"
  obtains
    "\<not> HasInputs k (drop_same_active args0 s)"
    "r = \<lparr>ret = 0, args_after = drop_same_active args0 s, dasm_after = s, events = []\<rparr>"
  | e evs where
    "HasInputs k (drop_same_active args0 s)"
    "BuildTransaction k (force_activate (drop_same_active args0 s) s) s = Inl (e, evs)"
    "r = \<lparr>ret = e, args_after = force_activate (drop_same_active args0 s) s,
          dasm_after = s, events = evs\<rparr>"
  | t where
    "HasInputs k (drop_same_active args0 s)"
    "BuildTransaction k (force_activate (drop_same_active args0 s) s) s = Inr t"
    "test_only args0"
    "r = \<lparr>ret = fst (drmModeAtomicCommit k (pset t)
                  (DRM_MODE_ATOMIC_ALLOW_MODESET OR DRM_MODE_ATOMIC_TEST_ONLY)),
          args_after = force_activate (drop_same_active args0 s) s, dasm_after = s,
          events = trace t @ [AtomicCommit (pset t)
                  (DRM_MODE_ATOMIC_ALLOW_MODESET OR DRM_MODE_ATOMIC_TEST_ONLY)]\<rparr>"
  | t s1 wevs flags where
    "HasInputs k (drop_same_active args0 s)"
    "BuildTransaction k (force_activate (drop_same_active args0 s) s) s = Inr t"
    "\<not> test_only args0"
    "WaitPriorFramePresented k s = Some (s1, wevs)"
    "flags = (if nonblock t then DRM_MODE_ATOMIC_ALLOW_MODESET OR DRM_MODE_ATOMIC_NONBLOCK
              else DRM_MODE_ATOMIC_ALLOW_MODESET)"
    "fst (drmModeAtomicCommit k (pset t) flags) \<noteq> 0"
    "r = \<lparr>ret = fst (drmModeAtomicCommit k (pset t) flags),
          args_after = force_activate (drop_same_active args0 s) s, dasm_after = s1,
          events = trace t @ wevs @ [AtomicCommit (pset t) flags,
                     ALOGE (FailedToCommitPset (fst (drmModeAtomicCommit k (pset t) flags)))]\<rparr>"
  | t s1 wevs flags fence where
    "HasInputs k (drop_same_active args0 s)"
    "BuildTransaction k (force_activate (drop_same_active args0 s) s) s = Inr t"
    "\<not> test_only args0"
    "WaitPriorFramePresented k s = Some (s1, wevs)"
    "nonblock t"
    "flags = DRM_MODE_ATOMIC_ALLOW_MODESET OR DRM_MODE_ATOMIC_NONBLOCK"
    "fst (drmModeAtomicCommit k (pset t) flags) = 0"
    "fence = MakeSharedFd k (snd (drmModeAtomicCommit k (pset t) flags))"
    "r = \<lparr>ret = 0,
          args_after = (force_activate (drop_same_active args0 s) s)\<lparr>out_fence := fence\<rparr>,
          dasm_after = s1\<lparr>last_present_fence := fence,
                          staged_frame_state := new_frame_state t,
                          frames_staged := frames_staged s1 + 1\<rparr>,
          events = trace t @ wevs @ [AtomicCommit (pset t) flags]\<rparr>"
  | t s1 wevs flags fence where
    "HasInputs k (drop_same_active args0 s)"
    "BuildTransaction k (force_activate (drop_same_active args0 s) s) s = Inr t"
    "\<not> test_only args0"
    "WaitPriorFramePresented k s = Some (s1, wevs)"
    "\<not> nonblock t"
    "flags = DRM_MODE_ATOMIC_ALLOW_MODESET"
    "fst (drmModeAtomicCommit k (pset t) flags) = 0"
    "fence = MakeSharedFd k (snd (drmModeAtomicCommit k (pset t) flags))"
    "r = \<lparr>ret = 0,
          args_after = (force_activate (drop_same_active args0 s) s)\<lparr>out_fence := fence\<rparr>,
          dasm_after = s1\<lparr>active_frame_state := new_frame_state t\<rparr>,
          events = trace t @ wevs @ [AtomicCommit (pset t) flags]\<rparr>"
proof (cases "HasInputs k (drop_same_active args0 s)")
  case False
  with assms that(1) show ?thesis by (auto simp: CommitFrame_def Let_def)
next
  case hi: True
  show ?thesis
  proof (cases "BuildTransaction k (force_activate (drop_same_active args0 s) s) s")
    case (Inl x)
    with assms hi that(2) show ?thesis
      by (cases x) (auto simp: CommitFrame_def Let_def)
  next
    case b: (Inr t)
    show ?thesis
    proof (cases "test_only args0")
      case True
      with assms hi b that(3) show ?thesis
        by (auto simp: CommitFrame_def Let_def)
    next
      case nt: False
      from assms hi b nt obtain s1 wevs where w: "WaitPriorFramePresented k s = Some (s1, wevs)"
        by (auto simp: CommitFrame_def Let_def split: option.splits)
      let ?flags = "if nonblock t then DRM_MODE_ATOMIC_ALLOW_MODESET OR DRM_MODE_ATOMIC_NONBLOCK
              else DRM_MODE_ATOMIC_ALLOW_MODESET"
      show ?thesis
      proof (cases "fst (drmModeAtomicCommit k (pset t) ?flags) = 0")
        case False
        with assms hi b nt w that(4) [of t s1 wevs ?flags] show ?thesis
          by (auto simp: CommitFrame_def Let_def split: if_splits)
      next
        case ok: True
        show ?thesis
        proof (cases "nonblock t")
          case True
          with assms hi b nt w ok that(5) [of t s1 wevs] show ?thesis
            by (auto simp: CommitFrame_def Let_def)
        next
          case False
          with assms hi b nt w ok that(6) [of t s1 wevs] show ?thesis
            by (auto simp: CommitFrame_def Let_def)
        qed
      qed
    qed
  qed
qed

lemma CommitFrame_commit_event:
  assumes "CommitFrame k args0 s = Some r" and "AtomicCommit p f \<in> set (events r)"
  shows "\<exists>t. HasInputs k (drop_same_active args0 s) \<and>
             BuildTransaction k (force_activate (drop_same_active args0 s) s) s = Inr t \<and>
             p = pset t \<and>
             f = (if test_only args0
                  then DRM_MODE_ATOMIC_ALLOW_MODESET OR DRM_MODE_ATOMIC_TEST_ONLY
                  else if nonblock t
                  then DRM_MODE_ATOMIC_ALLOW_MODESET OR DRM_MODE_ATOMIC_NONBLOCK
                  else DRM_MODE_ATOMIC_ALLOW_MODESET)"
  using assms(1)
proof (cases rule: CommitFrame_cases)
  case noop
  with assms(2) show ?thesis by simp
next
  case (build_failed e evs)
  with assms(2) BuildTransaction_Inl [OF build_failed(2)] show ?thesis
    by (auto dest: quiet_no_commit)
next
  case (test t)
  with assms(2) BuildTransaction_Inr(3) [OF test(2)] show ?thesis
    by auto
next
  case (rejected t s1 wevs flags)
  with assms(2) BuildTransaction_Inr(3) [OF rejected(2)]
    WaitPriorFramePresented_no_commit [OF rejected(4)] show ?thesis
    by auto
next
  case (staged t s1 wevs flags fence)
  with assms(2) BuildTransaction_Inr(3) [OF staged(2)]
    WaitPriorFramePresented_no_commit [OF staged(4)] show ?thesis
    by auto
next
  case (installed t s1 wevs flags fence)
  with assms(2) BuildTransaction_Inr(3) [OF installed(2)]
    WaitPriorFramePresented_no_commit [OF installed(4)] show ?thesis
    by auto
qed

lemma CommitFrame_test_only_after:
  "CommitFrame k args s = Some r \<Longrightarrow> test_only (args_after r) = test_only args"
  by (cases rule: CommitFrame_cases) auto

lemma CommitFrame_active_after:
  "CommitFrame k args s = Some r \<Longrightarrow> HasInputs k (drop_same_active args s) \<Longrightarrow>
   active (args_after r) = active (force_activate (drop_same_active args s) s)"
  by (cases rule: CommitFrame_cases) auto

lemma CommitFrame_events:
  assumes "CommitFrame k args s = Some r" and "x \<in> set (events r)"
  shows "x \<in> set (blob_calls k args) \<or> x \<in> range ALOGE \<or>
         (\<exists>a b. x = SyncWait a b) \<or> (\<exists>p f. x = AtomicCommit p f)"
  using assms(1)
proof (cases rule: CommitFrame_cases)
  case noop
  with assms(2) show ?thesis by simp
next
  case (build_failed e evs)
  with assms(2) BuildTransaction_Inl_events [OF build_failed(2)] show ?thesis by auto
next
  case (test t)
  with assms(2) BuildTransaction_Inr(3) [OF test(2)] show ?thesis by auto
next
  case (rejected t s1 wevs flags)
  with assms(2) BuildTransaction_Inr(3) [OF rejected(2)]
    WaitPriorFramePresented_Some [OF rejected(4)] show ?thesis
    by (auto split: if_splits)
next
  case (staged t s1 wevs flags fence)
  with assms(2) BuildTransaction_Inr(3) [OF staged(2)]
    WaitPriorFramePresented_Some [OF staged(4)] show ?thesis
    by (auto split: if_splits)
next
  case (installed t s1 wevs flags fence)
  with assms(2) BuildTransaction_Inr(3) [OF installed(2)]
    WaitPriorFramePresented_Some [OF installed(4)] show ?thesis
    by (auto split: if_splits)
qed

lemma CommitFrame_trace_events:
  assumes "CommitFrame k args s = Some r"
    and "HasInputs k (drop_same_active args s)"
    and "BuildTransaction k (force_activate (drop_same_active args s) s) s = Inr t"
  shows "set (trace t) \<subseteq> set (events r)"
  using assms by (cases rule: CommitFrame_cases) auto

lemma CommitFrame_build_failed:
  assumes "CommitFrame k args s = Some r"
    and "HasInputs k (drop_same_active args s)"
    and "\<forall>t. BuildTransaction k (force_activate (drop_same_active args s) s) s \<noteq> Inr t"
  shows "(ret r = - ENOMEM \<or> ret r = - EINVAL) \<and> dasm_after r = s \<and>
         (\<forall>p f. AtomicCommit p f \<notin> set (events r))"
  using assms(1)
proof (cases rule: CommitFrame_cases)
  case (build_failed e evs)
  with BuildTransaction_Inl [OF build_failed(2)] show ?thesis
    by (auto dest: quiet_no_commit)
qed (use assms in auto)

text \<open>With accepting collaborators no step fails.\<close>

lemma accepts_effective [simp]:
  "accepts k (force_activate (drop_same_active args s) s) = accepts k args"
  by (simp add: accepts_def)

lemma bind_plan_accepted:
  "\<forall>p q l z c b. AtomicSetState k p q l z c b = 0 \<Longrightarrow> \<exists>x. bind_plan k js b u t = Inr x"
  by (induction js arbitrary: b u t) (simp_all add: Let_def)

lemma disable_unused_accepted:
  "\<forall>p q. AtomicDisablePlane k p q = 0 \<Longrightarrow> \<exists>x. disable_unused k ps t = Inr x"
  by (induction ps arbitrary: t) simp_all

lemma txn_planes_accepted:
  assumes "\<forall>p q l z c b. AtomicSetState k p q l z c b = 0" and "\<forall>p q. AtomicDisablePlane k p q = 0"
  shows "\<exists>x. txn_planes k args t = Inr x"
proof (cases "composition args")
  case None
  then show ?thesis by (simp add: txn_planes_def)
next
  case (Some c)
  let ?t0 = "t\<lparr>new_frame_state := (new_frame_state t)\<lparr>used_planes := []\<rparr>\<rparr>"
  from bind_plan_accepted [OF assms(1)] obtain u t1 where
    b: "bind_plan k (plan c) True (used_planes (new_frame_state t)) ?t0 = Inr (u, t1)"
    by (metis surj_pair)
  from disable_unused_accepted [OF assms(2)] obtain t2 where "disable_unused k u t1 = Inr t2"
    by blast
  with Some b show ?thesis by (simp add: txn_planes_def and_then_def Let_def)
qed

lemma BuildTransaction_accepted:
  assumes "accepts k args"
  shows "\<exists>t. BuildTransaction k args s = Inr t"
proof -
  from assms have a:
    "MakeDrmModeAtomicReqUnique k" "\<And>p x. AtomicSet k p x"
    "\<forall>p q l z c b. AtomicSetState k p q l z c b = 0" "\<forall>p q. AtomicDisablePlane k p q = 0"
    "\<And>m. display_mode args = Some m \<Longrightarrow> CreateModeBlob k m \<noteq> None"
    "\<And>c. color_matrix args = Some c \<Longrightarrow> GetCtmProperty k \<Longrightarrow> RegisterUserPropertyBlob k c \<noteq> None"
    by (simp_all add: accepts_def)
  from a(1,2) obtain t0 where 0: "txn_begin k s = Inr t0"
    by (simp add: txn_begin_def)
  from a(2) obtain t1 where 1: "txn_active k args t0 = Inr t1"
    by (cases "active args") (simp_all add: txn_active_def Let_def)
  have "\<exists>t2. txn_mode k args t1 = Inr t2"
  proof (cases "display_mode args")
    case None
    then show ?thesis by (simp add: txn_mode_def)
  next
    case (Some m)
    with a(5) [OF Some] a(2) show ?thesis
      by (cases "CreateModeBlob k m") (simp_all add: txn_mode_def Let_def)
  qed
  then obtain t2 where 2: "txn_mode k args t1 = Inr t2" ..
  have "\<exists>t3. txn_ctm k args t2 = Inr t3"
  proof (cases "color_matrix args")
    case None
    then show ?thesis by (simp add: txn_ctm_def)
  next
    case (Some c)
    show ?thesis
    proof (cases "GetCtmProperty k")
      case True
      with a(6) [OF Some] a(2) Some show ?thesis
        by (cases "RegisterUserPropertyBlob k c") (simp_all add: txn_ctm_def Let_def)
    next
      case False
      with Some show ?thesis by (simp add: txn_ctm_def)
    qed
  qed
  then obtain t3 where 3: "txn_ctm k args t2 = Inr t3" ..
  from txn_planes_accepted [OF a(3,4)] obtain t4 where "txn_planes k args t3 = Inr t4" by blast
  with 0 1 2 3 show ?thesis by (simp add: BuildTransaction_def and_then_def)
qed

text \<open>
  A call whose transaction is built and whose clean-up assertion holds returns and
  submits that transaction.
\<close>

lemma WaitPriorFramePresented_returns:
  assumes "last_present_fence s \<noteq> None \<longrightarrow> frames_staged s - frames_tracked s = 1"
  shows "\<exists>s1 wevs. WaitPriorFramePresented k s = Some (s1, wevs)"
proof (cases "last_present_fence s")
  case None
  then show ?thesis by (simp add: WaitPriorFramePresented_def)
next
  case (Some fd)
  with assms show ?thesis
    by (simp add: WaitPriorFramePresented_def CleanupPriorFrameResources_def Let_def)
qed

lemma CommitFrame_issues:
  assumes "HasInputs k (drop_same_active args s)"
    and "BuildTransaction k (force_activate (drop_same_active args s) s) s = Inr t"
    and "last_present_fence s \<noteq> None \<longrightarrow> frames_staged s - frames_tracked s = 1"
  shows "\<exists>r f. CommitFrame k args s = Some r \<and> AtomicCommit (pset t) f \<in> set (events r)"
proof (cases "test_only args")
  case True
  with assms(1,2) show ?thesis by (auto simp: CommitFrame_def Let_def)
next
  case False
  from WaitPriorFramePresented_returns [OF assms(3), of k] obtain s1 wevs where
    "WaitPriorFramePresented k s = Some (s1, wevs)" by blast
  with False assms(1,2) show ?thesis by (auto simp: CommitFrame_def Let_def)
qed

lemma CommitFrame_accepted:
  assumes "HasInputs k (drop_same_active args s)" and "accepts k args"
    and "last_present_fence s \<noteq> None \<longrightarrow> frames_staged s - frames_tracked s = 1"
  shows "\<exists>r p f. CommitFrame k args s = Some r \<and> AtomicCommit p f \<in> set (events r)"
proof -
  from BuildTransaction_accepted [of k "force_activate (drop_same_active args s) s" s] assms(2)
  obtain t where "BuildTransaction k (force_activate (drop_same_active args s) s) s = Inr t"
    by auto
  from CommitFrame_issues [OF assms(1) this assms(3)] show ?thesis by blast
qed

lemma CommitFrame_accepted_events:
  assumes "CommitFrame k args s = Some r"
    and "HasInputs k (drop_same_active args s)" and "accepts k args"
  shows "\<exists>p f. AtomicCommit p f \<in> set (events r)"
proof -
  from BuildTransaction_accepted [of k "force_activate (drop_same_active args s) s" s] assms(3)
  obtain t where b: "BuildTransaction k (force_activate (drop_same_active args s) s) s = Inr t"
    by auto
  from assms(1) show ?thesis
  proof (cases rule: CommitFrame_cases)
    case noop
    with assms(2) show ?thesis by simp
  next
    case (build_failed e evs)
    with b show ?thesis by simp
  qed auto
qed

section \<open>The bookkeeping invariant\<close>

text \<open>
  \<open>one_outstanding\<close> holds initially and is kept by \<open>CommitFrame\<close> and by the tracker, so
  \<open>CommitFrame\<close> never aborts. While the counters have not wrapped around, which takes
  at least \<open>2^31\<close> calls of \<open>CommitFrame\<close>, they are ordered as signed numbers and the tracker's
  counter never exceeds \<open>frames_staged_\<close>; then the tracker's locked block never aborts
  either.
\<close>

lemma one_outstanding_initial: "one_outstanding initial_dasm"
  by (simp add: one_outstanding_def initial_dasm_def)

lemma one_outstanding_cleanup:
  "one_outstanding s \<Longrightarrow> last_present_fence s \<noteq> None \<Longrightarrow>
   \<exists>s'. CleanupPriorFrameResources s = Some s' \<and> one_outstanding s' \<and>
        last_present_fence s' = None \<and> frames_staged s' = frames_staged s \<and>
        frames_tracked s' = frames_staged s"
  by (auto simp: one_outstanding_def CleanupPriorFrameResources_def)

lemma one_outstanding_wait:
  assumes "one_outstanding s"
  shows "\<exists>s1 wevs. WaitPriorFramePresented k s = Some (s1, wevs) \<and> one_outstanding s1 \<and>
           last_present_fence s1 = None \<and> frames_staged s1 = frames_staged s \<and>
           frames_tracked s1 = frames_staged s"
proof (cases "last_present_fence s")
  case None
  with assms show ?thesis by (simp add: WaitPriorFramePresented_def one_outstanding_def)
next
  case (Some fd)
  with one_outstanding_cleanup [OF assms] obtain s' where
    "CleanupPriorFrameResources s = Some s'" "one_outstanding s'"
    "last_present_fence s' = None" "frames_staged s' = frames_staged s"
    "frames_tracked s' = frames_staged s" by auto
  with Some show ?thesis by (simp add: WaitPriorFramePresented_def Let_def)
qed

lemma CommitFrame_returns:
  assumes "one_outstanding s"
  shows "CommitFrame k args s \<noteq> None"
proof -
  let ?args = "force_activate (drop_same_active args s) s"
  from one_outstanding_wait [OF assms, of k] obtain s1 wevs where
    w: "WaitPriorFramePresented k s = Some (s1, wevs)" by blast
  show ?thesis
  proof (cases "BuildTransaction k ?args s")
    case (Inl e)
    then show ?thesis by (cases e) (simp add: CommitFrame_def Let_def)
  next
    case (Inr t)
    with w show ?thesis by (simp add: CommitFrame_def Let_def)
  qed
qed

lemma CommitFrame_one_outstanding:
  assumes "one_outstanding s" and "delivers_fence k" and "CommitFrame k args s = Some r"
  shows "one_outstanding (dasm_after r) \<and>
         (frames_staged (dasm_after r) = frames_staged s \<or>
          frames_staged (dasm_after r) = frames_staged s + 1) \<and>
         (frames_tracked (dasm_after r) = frames_tracked s \<or>
          frames_tracked (dasm_after r) = frames_staged s)"
  using assms(3)
proof (cases rule: CommitFrame_cases)
  case noop
  with assms(1) show ?thesis by simp
next
  case (build_failed e evs)
  with assms(1) show ?thesis by simp
next
  case (test t)
  with assms(1) show ?thesis by simp
next
  case (rejected t s1 wevs flags)
  with one_outstanding_wait [OF assms(1), of k] show ?thesis by auto
next
  case (staged t s1 wevs flags fence)
  from assms(2) staged(6,7,8) have "fence \<noteq> None"
    by (simp add: delivers_fence_def)
  with staged one_outstanding_wait [OF assms(1), of k] show ?thesis
    by (auto simp: one_outstanding_def)
next
  case (installed t s1 wevs flags fence)
  with one_outstanding_wait [OF assms(1), of k] show ?thesis
    by (auto simp: one_outstanding_def)
qed

lemma ThreadFn_wake_tracking:
  "tracking_at_the_moment (ThreadFn_wake leave s t) = tracking_at_the_moment t \<or>
   tracking_at_the_moment (ThreadFn_wake leave s t) = frames_staged s"
  by (simp add: ThreadFn_wake_def Let_def)

lemma ThreadFn_finish_Some:
  assumes "ThreadFn_finish exit_thread s t = Some (s', t')"
  shows "tracking_at_the_moment t' = tracking_at_the_moment t \<and>
         (s' = s \<or> CleanupPriorFrameResources s = Some s')"
  using assms by (auto simp: ThreadFn_finish_def split: if_splits option.splits)

lemma reachable_one_outstanding:
  "reachable n s t \<Longrightarrow> one_outstanding s"
proof (induction rule: reachable.induct)
  case start
  then show ?case by (rule one_outstanding_initial)
next
  case (commit n s t k args r)
  with CommitFrame_one_outstanding [of s k args r] show ?case by simp
next
  case (wake n s t leave)
  then show ?case by simp
next
  case (wake_within_commit n s t k args r b s1 wevs leave)
  with CommitFrame_one_outstanding [of s k args r] show ?case by simp
next
  case (finish n s t exit_thread s' t')
  from ThreadFn_finish_Some [OF finish.hyps(3)] show ?case
  proof (elim conjE disjE)
    assume "s' = s"
    with finish.IH show ?thesis by simp
  next
    assume c: "CleanupPriorFrameResources s = Some s'"
    then have "last_present_fence s \<noteq> None"
      by (auto simp: CleanupPriorFrameResources_def split: if_splits)
    from one_outstanding_cleanup [OF finish.IH this] c show ?thesis by simp
  qed
qed

lemma sint_succ_no_wrap:
  fixes x :: "32 word"
  assumes "sint x < 2147483647"
  shows "sint (x + 1) = sint x + 1"
proof -
  have "- (2 ^ 31) \<le> sint x" using sint_ge [of x] by simp
  with assms have "signed_take_bit 31 (sint x + 1) = sint x + 1"
    by (intro signed_take_bit_int_eq_self) simp_all
  then show ?thesis by (simp add: sint_word_ariths)
qed

lemma sint_of_nat_small:
  "n < 2147483648 \<Longrightarrow> sint (of_nat n :: 32 word) = int n"
  by (simp add: signed_of_nat signed_take_bit_int_eq_self)

lemma reachable_before_wrap:
  "reachable n s t \<Longrightarrow> n < 2147483648 \<Longrightarrow>
   0 \<le> sint (frames_tracked s) \<and>
   sint (frames_tracked s) \<le> sint (frames_staged s) \<and>
   sint (frames_staged s) \<le> int n \<and>
   sint (tracking_at_the_moment t) \<le> sint (frames_staged s)"
proof (induction rule: reachable.induct)
  case start
  then show ?case by (simp add: initial_dasm_def initial_tracker_def)
next
  case (commit n s t k args r)
  from commit.prems commit.IH have ih:
    "0 \<le> sint (frames_tracked s)" "sint (frames_tracked s) \<le> sint (frames_staged s)"
    "sint (frames_staged s) \<le> int n" "sint (tracking_at_the_moment t) \<le> sint (frames_staged s)"
    by simp_all
  from ih(3) commit.prems have "sint (frames_staged s) < 2147483647" by simp
  note suc = sint_succ_no_wrap [OF this]
  from CommitFrame_one_outstanding [OF reachable_one_outstanding [OF commit.hyps(1)] commit.hyps(2,3)]
    ih suc show ?case by auto
next
  case (wake n s t leave)
  with ThreadFn_wake_tracking [of leave s t] show ?case by auto
next
  case (wake_within_commit n s t k args r b s1 wevs leave)
  from wake_within_commit.prems wake_within_commit.IH have ih:
    "0 \<le> sint (frames_tracked s)" "sint (frames_tracked s) \<le> sint (frames_staged s)"
    "sint (frames_staged s) \<le> int n" "sint (tracking_at_the_moment t) \<le> sint (frames_staged s)"
    by simp_all
  from ih(3) wake_within_commit.prems have "sint (frames_staged s) < 2147483647" by simp
  note suc = sint_succ_no_wrap [OF this]
  note o = reachable_one_outstanding [OF wake_within_commit.hyps(1)]
  from one_outstanding_wait [OF o, of k] wake_within_commit.hyps(8)
  have s1: "frames_staged s1 = frames_staged s" by auto
  from CommitFrame_one_outstanding [OF o wake_within_commit.hyps(3,4)]
    ThreadFn_wake_tracking [of leave s1 t] s1 ih suc show ?case by auto
next
  case (finish n s t exit_thread s' t')
  from finish.prems finish.IH have ih:
    "0 \<le> sint (frames_tracked s)" "sint (frames_tracked s) \<le> sint (frames_staged s)"
    "sint (frames_staged s) \<le> int n" "sint (tracking_at_the_moment t) \<le> sint (frames_staged s)"
    by simp_all
  from ThreadFn_finish_Some [OF finish.hyps(3)] show ?case
  proof (elim conjE disjE)
    assume "s' = s" "tracking_at_the_moment t' = tracking_at_the_moment t"
    with ih show ?thesis by simp
  next
    assume c: "CleanupPriorFrameResources s = Some s'"
      and tr: "tracking_at_the_moment t' = tracking_at_the_moment t"
    then have "last_present_fence s \<noteq> None"
      by (auto simp: CleanupPriorFrameResources_def split: if_splits)
    from one_outstanding_cleanup [OF reachable_one_outstanding [OF finish.hyps(1)] this] c
    have "frames_staged s' = frames_staged s" "frames_tracked s' = frames_staged s" by auto
    with ih tr show ?thesis by simp
  qed
qed

lemma assertions_hold_before_wrap:
  assumes "reachable n s t"
  shows "(last_present_fence s \<noteq> None \<longrightarrow> frames_staged s - frames_tracked s = 1) \<and>
         (\<forall>k args. CommitFrame k args s \<noteq> None) \<and>
         (n < 2147483648 \<longrightarrow>
            (pc t = Draining \<and> frames_tracked s <s tracking_at_the_moment t \<longrightarrow>
               frames_staged s - frames_tracked s = 1 \<and> last_present_fence s \<noteq> None) \<and>
            (\<forall>exit_thread. pc t = Draining \<longrightarrow> ThreadFn_finish exit_thread s t \<noteq> None)) \<and>
         (\<forall>s'. CleanupPriorFrameResources s = Some s' \<longrightarrow>
            active_frame_state s' = staged_frame_state s \<and>
            last_present_fence s' = None \<and>
            frames_tracked s' = frames_staged s')"
proof -
  note o = reachable_one_outstanding [OF assms]
  from o have 1: "last_present_fence s \<noteq> None \<longrightarrow> frames_staged s - frames_tracked s = 1"
    by (simp add: one_outstanding_def)
  from o have 2: "\<forall>k args. CommitFrame k args s \<noteq> None"
    by (simp add: CommitFrame_returns)
  have 3: "frames_staged s - frames_tracked s = 1 \<and> last_present_fence s \<noteq> None"
    if "n < 2147483648" "pc t = Draining" "frames_tracked s <s tracking_at_the_moment t"
  proof -
    from reachable_before_wrap [OF assms that(1)] that(3)
    have "frames_tracked s \<noteq> frames_staged s" by (auto simp: word_sless_alt)
    with o show ?thesis by (auto simp: one_outstanding_def split: if_splits)
  qed
  have 4: "ThreadFn_finish exit_thread s t \<noteq> None"
    if "n < 2147483648" "pc t = Draining" for exit_thread
  proof (cases "frames_tracked s <s tracking_at_the_moment t")
    case True
    with 3 that one_outstanding_cleanup [OF o] show ?thesis
      by (auto simp: ThreadFn_finish_def)
  next
    case False
    then show ?thesis by (simp add: ThreadFn_finish_def)
  qed
  have 5: "\<forall>s'. CleanupPriorFrameResources s = Some s' \<longrightarrow>
            active_frame_state s' = staged_frame_state s \<and>
            last_present_fence s' = None \<and>
            frames_tracked s' = frames_staged s'"
    by (auto simp: CleanupPriorFrameResources_def diff_eq_eq add.commute split: if_splits)
  from 1 2 3 4 5 show ?thesis by blast
qed

section \<open>Runs of the concrete scenarios\<close>

text \<open>
  The last lemmas repeat scenario 2 followed by the tracker's promotion: each round adds
  one to both counters, so any count below \<open>2^31\<close> is reached.
\<close>

lemmas model_defs =
  CommitFrame_def BuildTransaction_def txn_begin_def txn_active_def txn_mode_def txn_ctm_def
  txn_planes_def and_then_def NewFrameState_def drop_same_active_def force_activate_def
  WaitPriorFramePresented_def CleanupPriorFrameResources_def moved_from_def
  DRM_MODE_ATOMIC_ALLOW_MODESET_def DRM_MODE_ATOMIC_NONBLOCK_def DRM_MODE_ATOMIC_TEST_ONLY_def
  ENOMEM_def EINVAL_def kTimeoutMs_def Let_def

lemma run_on:
  "CommitFrame accepting request_on initial_dasm =
     Some \<lparr>ret = 0, args_after = request_on\<lparr>out_fence := Some 7\<rparr>, dasm_after = dasm_on,
           events = [CreateModeBlobCall 1,
                     AtomicCommit [OutFencePtr, CrtcActive 1, ConnectorCrtcId 31, CrtcMode 101] 0x400]\<rparr>"
  by (simp add: model_defs accepting_def request_on_def initial_dasm_def dasm_on_def empty_frame_def)

lemma run_plane:
  "CommitFrame accepting request_plane dasm_on =
     Some \<lparr>ret = 0, args_after = request_plane\<lparr>out_fence := Some 7\<rparr>, dasm_after = dasm_staged,
           events = [AtomicCommit [OutFencePtr, PlaneState 5 \<lparr>fb = Some 9\<rparr> 0 31 True] 0x600]\<rparr>"
  by (simp add: model_defs accepting_def request_plane_def dasm_staged_def dasm_on_def empty_frame_def)

lemma run_mode:
  "CommitFrame accepting request_mode dasm_on =
     Some \<lparr>ret = 0, args_after = request_mode\<lparr>out_fence := Some 7\<rparr>,
           dasm_after = dasm_on
             \<lparr>last_present_fence := Some 7,
              staged_frame_state := \<lparr>used_planes = [], used_framebuffers = [],
                   mode_blob = Some 102, ctm_blob = None, crtc_active_state = True\<rparr>,
              frames_staged := 1\<rparr>,
           events = [CreateModeBlobCall 2, AtomicCommit [OutFencePtr, CrtcMode 102] 0x600]\<rparr>"
  by (simp add: model_defs accepting_def request_mode_def dasm_on_def)

lemma run_no_ctm:
  "CommitFrame no_ctm request_ctm dasm_on =
     Some \<lparr>ret = 0, args_after = request_ctm\<lparr>out_fence := Some 7\<rparr>,
           dasm_after = dasm_on
             \<lparr>last_present_fence := Some 7,
              staged_frame_state := \<lparr>used_planes = [], used_framebuffers = [],
                   mode_blob = None, ctm_blob = None, crtc_active_state = True\<rparr>,
              frames_staged := 1\<rparr>,
           events = [AtomicCommit [OutFencePtr] 0x600]\<rparr>"
  by (simp add: model_defs no_ctm_def accepting_def request_ctm_def dasm_on_def)

lemma run_plane_initial:
  "CommitFrame accepting request_plane initial_dasm =
     Some \<lparr>ret = 0, args_after = request_plane\<lparr>active := Some True, out_fence := Some 7\<rparr>,
           dasm_after = initial_dasm\<lparr>active_frame_state :=
              \<lparr>used_planes = [5], used_framebuffers = [Some 9], mode_blob = None,
               ctm_blob = None, crtc_active_state = True\<rparr>\<rparr>,
           events = [AtomicCommit [OutFencePtr, CrtcActive 1, ConnectorCrtcId 31,
                                   PlaneState 5 \<lparr>fb = Some 9\<rparr> 0 31 True] 0x400]\<rparr>"
  by (simp add: model_defs accepting_def request_plane_def initial_dasm_def empty_frame_def)

lemma run_on_plane:
  "CommitFrame accepting request_on_plane dasm_on =
     Some \<lparr>ret = 0, args_after = request_plane\<lparr>out_fence := Some 7\<rparr>, dasm_after = dasm_staged,
           events = [AtomicCommit [OutFencePtr, PlaneState 5 \<lparr>fb = Some 9\<rparr> 0 31 True] 0x600]\<rparr>"
  by (simp add: model_defs accepting_def request_on_plane_def request_plane_def dasm_staged_def
      dasm_on_def empty_frame_def)

lemma run_test_rejected:
  "CommitFrame rejecting request_test dasm_staged =
     Some \<lparr>ret = - 16, args_after = request_test, dasm_after = dasm_staged,
           events = [AtomicCommit [OutFencePtr, PlaneState 5 \<lparr>fb = Some 9\<rparr> 0 31 True] 0x500]\<rparr>"
  by (simp add: model_defs rejecting_def accepting_def request_test_def request_plane_def
      dasm_staged_def)

lemma run_plane_rejected:
  "CommitFrame rejecting request_plane dasm_staged =
     Some \<lparr>ret = - 16, args_after = request_plane, dasm_after = dasm_promoted,
           events = [SyncWait 7 500,
                     AtomicCommit [OutFencePtr, PlaneState 5 \<lparr>fb = Some 9\<rparr> 0 31 True] 0x600,
                     ALOGE (FailedToCommitPset (- 16))]\<rparr>"
  by (simp add: model_defs rejecting_def accepting_def request_plane_def
      dasm_staged_def dasm_promoted_def)

lemma run_swap:
  "CommitFrame accepting request_swap dasm_promoted =
     Some \<lparr>ret = 0, args_after = request_swap\<lparr>out_fence := Some 7\<rparr>,
           dasm_after = dasm_promoted
             \<lparr>last_present_fence := Some 7,
              staged_frame_state := \<lparr>used_planes = [6, 8], used_framebuffers = [Some 10, Some 11],
                   mode_blob = None, ctm_blob = None, crtc_active_state = True\<rparr>,
              frames_staged := 2\<rparr>,
           events = [AtomicCommit [OutFencePtr, PlaneState 6 \<lparr>fb = Some 10\<rparr> 0 31 True,
                                   PlaneState 8 \<lparr>fb = Some 11\<rparr> 1 31 False,
                                   PlaneDisable 5] 0x600]\<rparr>"
  by (simp add: model_defs accepting_def request_swap_def dasm_promoted_def)

lemma run_mode_ctm:
  "CommitFrame accepting request_mode_ctm dasm_on =
     Some \<lparr>ret = 0, args_after = request_mode_ctm\<lparr>out_fence := Some 7\<rparr>,
           dasm_after = dasm_on
             \<lparr>last_present_fence := Some 7,
              staged_frame_state := \<lparr>used_planes = [], used_framebuffers = [],
                   mode_blob = Some 102, ctm_blob = Some 200, crtc_active_state = True\<rparr>,
              frames_staged := 1\<rparr>,
           events = [CreateModeBlobCall 2,
                     RegisterUserPropertyBlobCall [1, 0, 0, 0, 1, 0, 0, 0, 1],
                     AtomicCommit [OutFencePtr, CrtcMode 102, CrtcCtm 200] 0x600]\<rparr>"
  by (simp add: model_defs accepting_def request_mode_ctm_def dasm_on_def)

lemma run_recovery_refused:
  "CommitFrame refusing cl_args dasm_promoted =
     Some \<lparr>ret = - 13, args_after = cl_args, dasm_after = dasm_promoted,
           events = [AtomicCommit [OutFencePtr, PlaneDisable 5] 0x600,
                     ALOGE (FailedToCommitPset (- 13))]\<rparr>"
  by (simp add: model_defs refusing_def accepting_def cl_args_def dasm_promoted_def)

lemma build_swap:
  "BuildTransaction timing_out (force_activate (drop_same_active request_swap dasm_staged) dasm_staged)
     dasm_staged =
   Inr \<lparr>pset = [OutFencePtr, PlaneState 6 \<lparr>fb = Some 10\<rparr> 0 31 True,
                 PlaneState 8 \<lparr>fb = Some 11\<rparr> 1 31 False],
        new_frame_state = \<lparr>used_planes = [6, 8], used_framebuffers = [Some 10, Some 11],
                   mode_blob = None, ctm_blob = None, crtc_active_state = True\<rparr>,
        nonblock = True, trace = []\<rparr>"
  by (simp add: model_defs timing_out_def accepting_def request_swap_def dasm_staged_def)

lemma accepts_accepting: "accepts accepting args"
  by (simp add: accepts_def accepting_def)

lemma run_swap_staged:
  "CommitFrame accepting request_swap dasm_staged =
     Some \<lparr>ret = 0, args_after = request_swap\<lparr>out_fence := Some 7\<rparr>,
           dasm_after = dasm_promoted
             \<lparr>last_present_fence := Some 7,
              staged_frame_state := \<lparr>used_planes = [6, 8], used_framebuffers = [Some 10, Some 11],
                   mode_blob = None, ctm_blob = None, crtc_active_state = True\<rparr>,
              frames_staged := 2\<rparr>,
           events = [SyncWait 7 500,
                     AtomicCommit [OutFencePtr, PlaneState 6 \<lparr>fb = Some 10\<rparr> 0 31 True,
                                   PlaneState 8 \<lparr>fb = Some 11\<rparr> 1 31 False] 0x600]\<rparr>"
  by (simp add: model_defs accepting_def request_swap_def dasm_staged_def dasm_promoted_def)

lemma delivers_fence_accepting: "delivers_fence accepting"
  by (simp add: delivers_fence_def accepting_def DRM_MODE_ATOMIC_ALLOW_MODESET_def
      DRM_MODE_ATOMIC_NONBLOCK_def DRM_MODE_ATOMIC_TEST_ONLY_def)

lemma delivers_fence_rejecting: "delivers_fence rejecting"
  by (simp add: delivers_fence_def rejecting_def accepting_def)

lemma reachable_draining: "reachable 2 dasm_staged tracker_draining"
proof -
  from reachable.commit [OF reachable.start delivers_fence_accepting run_on]
  have "reachable 1 dasm_on initial_tracker" by simp
  from reachable.commit [OF this delivers_fence_accepting run_plane]
  have "reachable 2 dasm_staged initial_tracker" by (simp add: numeral_2_eq_2)
  from reachable.wake [OF this, of False]
  show ?thesis
    by (simp add: initial_tracker_def ThreadFn_wake_def tracker_draining_def dasm_staged_def
        word_sle_eq)
qed

lemma run_plane_promoted:
  "CommitFrame accepting request_plane (dasm_promoted\<lparr>frames_staged := c, frames_tracked := c\<rparr>) =
     Some \<lparr>ret = 0, args_after = request_plane\<lparr>out_fence := Some 7\<rparr>,
           dasm_after = dasm_promoted
             \<lparr>frames_staged := c + 1, frames_tracked := c,
              last_present_fence := Some 7,
              staged_frame_state := \<lparr>used_planes = [5], used_framebuffers = [Some 9],
                   mode_blob = None, ctm_blob = None, crtc_active_state = True\<rparr>\<rparr>,
           events = [AtomicCommit [OutFencePtr, PlaneState 5 \<lparr>fb = Some 9\<rparr> 0 31 True] 0x600]\<rparr>"
  by (simp add: model_defs accepting_def request_plane_def dasm_promoted_def)

lemma cycle:
  assumes "reachable m (dasm_promoted_at n) (tracker_waiting_at n)" and "Suc n < 2147483648"
  shows "reachable (Suc m) (dasm_promoted_at (Suc n)) (tracker_waiting_at (Suc n))"
proof -
  let ?staged = "dasm_promoted
             \<lparr>frames_staged := of_nat n + 1, frames_tracked := of_nat n,
              last_present_fence := Some 7,
              staged_frame_state := \<lparr>used_planes = [5], used_framebuffers = [Some 9],
                   mode_blob = None, ctm_blob = None, crtc_active_state = True\<rparr>\<rparr>"
  let ?draining = "\<lparr>tracking_at_the_moment = of_nat n + 1, present_fence = Some 7, pc = Draining\<rparr>"
  have lt: "sint (of_nat n :: 32 word) < sint (of_nat n + 1 :: 32 word)"
    using sint_of_nat_small [of n] sint_of_nat_small [of "Suc n"] assms(2)
    by (simp add: add.commute)
  from reachable.commit [OF assms(1) delivers_fence_accepting, of request_plane]
  have 1: "reachable (Suc m) ?staged (tracker_waiting_at n)"
    by (simp add: dasm_promoted_at_def run_plane_promoted)
  have w: "ThreadFn_wake False ?staged (tracker_waiting_at n) = ?draining"
    using lt by (simp add: ThreadFn_wake_def tracker_waiting_at_def Let_def word_sle_eq)
  from reachable.wake [OF 1, of False] w
  have 2: "reachable (Suc m) ?staged ?draining"
    by (simp add: tracker_waiting_at_def)
  have f: "ThreadFn_finish False ?staged ?draining =
             Some (dasm_promoted_at (Suc n), tracker_waiting_at (Suc n))"
    using lt
    by (simp add: ThreadFn_finish_def CleanupPriorFrameResources_def moved_from_def
        dasm_promoted_at_def tracker_waiting_at_def dasm_promoted_def word_sless_alt add.commute)
  from reachable.finish [OF 2 _ f] show ?thesis by simp
qed

lemma reachable_promoted_1: "reachable 2 (dasm_promoted_at 1) (tracker_waiting_at 1)"
proof -
  have "ThreadFn_finish False dasm_staged tracker_draining =
          Some (dasm_promoted_at 1, tracker_waiting_at 1)"
    by (simp add: ThreadFn_finish_def CleanupPriorFrameResources_def moved_from_def
        dasm_promoted_at_def tracker_waiting_at_def dasm_promoted_def dasm_staged_def
        tracker_draining_def word_sless_alt)
  from reachable.finish [OF reachable_draining _ this] show ?thesis
    by (simp add: tracker_draining_def)
qed

lemma reachable_promoted:
  "Suc n < 2147483648 \<Longrightarrow> reachable (Suc (Suc n)) (dasm_promoted_at (Suc n)) (tracker_waiting_at (Suc n))"
proof (induction n)
  case 0
  from reachable_promoted_1 show ?case by (simp add: numeral_2_eq_2)
next
  case (Suc n)
  then have "reachable (Suc (Suc n)) (dasm_promoted_at (Suc n)) (tracker_waiting_at (Suc n))"
    by simp
  from cycle [OF this Suc.prems] show ?case .
qed

lemma reachable_wrapped: "reachable 2147483650 dasm_wrapped tracker_at_max"
proof -
  let ?staged = "\<lambda>c. dasm_promoted
             \<lparr>frames_staged := c + 1, frames_tracked := c,
              last_present_fence := Some 7,
              staged_frame_state := \<lparr>used_planes = [5], used_framebuffers = [Some 9],
                   mode_blob = None, ctm_blob = None, crtc_active_state = True\<rparr>\<rparr>"
  from reachable_promoted [of 2147483645]
  have 0: "reachable 2147483647 (dasm_promoted_at 2147483646) (tracker_waiting_at 2147483646)"
    by simp
  from reachable.commit [OF 0 delivers_fence_accepting, of request_plane]
  have 1: "reachable 2147483648 (?staged 0x7FFFFFFE) (tracker_waiting_at 2147483646)"
    by (simp add: dasm_promoted_at_def run_plane_promoted)
  have w: "ThreadFn_wake False (?staged 0x7FFFFFFE) (tracker_waiting_at 2147483646) = tracker_at_max"
    by (simp add: ThreadFn_wake_def tracker_waiting_at_def tracker_at_max_def Let_def word_sle_eq)
  from reachable.wake [OF 1, of False] w
  have 2: "reachable 2147483648 (?staged 0x7FFFFFFE) tracker_at_max"
    by (simp add: tracker_waiting_at_def)
  have c1: "CommitFrame accepting request_plane (?staged 0x7FFFFFFE) =
     Some \<lparr>ret = 0, args_after = request_plane\<lparr>out_fence := Some 7\<rparr>,
           dasm_after = ?staged 0x7FFFFFFF,
           events = [SyncWait 7 500,
                     AtomicCommit [OutFencePtr, PlaneState 5 \<lparr>fb = Some 9\<rparr> 0 31 True] 0x600]\<rparr>"
    by (simp add: model_defs accepting_def request_plane_def dasm_promoted_def)
  from reachable.commit [OF 2 delivers_fence_accepting c1]
  have 3: "reachable 2147483649 (?staged 0x7FFFFFFF) tracker_at_max" by simp
  have c2: "CommitFrame rejecting request_plane (?staged 0x7FFFFFFF) =
     Some \<lparr>ret = - 16, args_after = request_plane, dasm_after = dasm_wrapped,
           events = [SyncWait 7 500,
                     AtomicCommit [OutFencePtr, PlaneState 5 \<lparr>fb = Some 9\<rparr> 0 31 True] 0x600,
                     ALOGE (FailedToCommitPset (- 16))]\<rparr>"
    by (simp add: model_defs rejecting_def accepting_def request_plane_def dasm_promoted_def
        dasm_wrapped_def)
  from reachable.commit [OF 3 delivers_fence_rejecting c2]
  show ?thesis by simp
qed

section \<open>Blocking and non-blocking commits\<close>

text \<open>
  C1, as stated, fails: after a first commit has switched the output on, a request that
  only changes the display mode is committed with \<open>DRM_MODE_ATOMIC_NONBLOCK\<close>. The code
  clears \<open>nonblock\<close> in one place only, where it handles the active flag (lines 88--89);
  the block that handles the mode (lines 97--108) leaves it alone.
\<close>

theorem mode_change_nonblocking:
  "map_option dasm_after (CommitFrame accepting request_on initial_dasm) = Some dasm_on \<and>
   display_mode request_mode = Some 2 \<and>
   active request_mode = None \<and>
   mode_blob (active_frame_state dasm_on) = Some 101 \<and>
   CommitFrame accepting request_mode dasm_on =
     Some \<lparr>ret = 0, args_after = request_mode\<lparr>out_fence := Some 7\<rparr>,
           dasm_after = dasm_on
             \<lparr>last_present_fence := Some 7,
              staged_frame_state := \<lparr>used_planes = [], used_framebuffers = [],
                   mode_blob = Some 102, ctm_blob = None, crtc_active_state = True\<rparr>,
              frames_staged := 1\<rparr>,
           events = [CreateModeBlobCall 2, AtomicCommit [OutFencePtr, CrtcMode 102] 0x600]\<rparr> \<and>
   (0x600 :: 32 word) AND DRM_MODE_ATOMIC_NONBLOCK \<noteq> 0"
  by (simp add: run_on run_mode)
    (simp add: request_mode_def dasm_on_def DRM_MODE_ATOMIC_NONBLOCK_def)

text \<open>
  C1, amended: a commit that is not test-only is issued without the nonblocking flag if
  and only if the request changes the active flag or the output is currently off (as it
  is at the very first commit); every other commit, also one that changes the display
  mode, is issued with the nonblocking flag.
\<close>

theorem blocking_iff_active_property:
  assumes "CommitFrame k args s = Some r"
    and "\<not> test_only args"
    and "AtomicCommit p f \<in> set (events r)"
  shows "(f AND DRM_MODE_ATOMIC_NONBLOCK = 0) =
           ((\<exists>a. active args = Some a \<and> a \<noteq> crtc_active_state (active_frame_state s)) \<or>
            \<not> crtc_active_state (active_frame_state s)) \<and>
         f = (if (\<exists>a. active args = Some a \<and> a \<noteq> crtc_active_state (active_frame_state s)) \<or>
                 \<not> crtc_active_state (active_frame_state s)
              then DRM_MODE_ATOMIC_ALLOW_MODESET
              else DRM_MODE_ATOMIC_ALLOW_MODESET OR DRM_MODE_ATOMIC_NONBLOCK)"
proof -
  let ?args = "force_activate (drop_same_active args s) s"
  from CommitFrame_commit_event [OF assms(1,3)] assms(2) obtain t where
    b: "BuildTransaction k ?args s = Inr t" and
    f: "f = (if nonblock t then DRM_MODE_ATOMIC_ALLOW_MODESET OR DRM_MODE_ATOMIC_NONBLOCK
             else DRM_MODE_ATOMIC_ALLOW_MODESET)"
    by auto
  have nb: "nonblock t = (active ?args = None)"
    by (rule BuildTransaction_Inr(2) [OF b])
  have "(active ?args = None) =
        (\<not> ((\<exists>a. active args = Some a \<and> a \<noteq> crtc_active_state (active_frame_state s)) \<or>
            \<not> crtc_active_state (active_frame_state s)))"
    by (cases "active args") (auto simp: active_effective)
  with nb f show ?thesis by simp
qed

text \<open>The first commit of scenario 1 is blocking: its flags are \<open>ALLOW_MODESET\<close> alone.\<close>

theorem blocking_iff_active_property_witness:
  "\<not> test_only request_on \<and>
   map_option events (CommitFrame accepting request_on initial_dasm) =
     Some [CreateModeBlobCall 1,
           AtomicCommit [OutFencePtr, CrtcActive 1, ConnectorCrtcId 31, CrtcMode 101] 0x400] \<and>
   \<not> crtc_active_state (active_frame_state initial_dasm) \<and>
   (0x400 :: 32 word) AND DRM_MODE_ATOMIC_NONBLOCK = 0 \<and>
   (0x400 :: 32 word) = DRM_MODE_ATOMIC_ALLOW_MODESET"
proof -
  have m: "AtomicCommit [OutFencePtr, CrtcActive 1, ConnectorCrtcId 31, CrtcMode 101] 0x400
        \<in> set (events \<lparr>ret = 0, args_after = request_on\<lparr>out_fence := Some 7\<rparr>, dasm_after = dasm_on,
           events = [CreateModeBlobCall 1,
                     AtomicCommit [OutFencePtr, CrtcActive 1, ConnectorCrtcId 31, CrtcMode 101] 0x400]\<rparr>)"
    by simp
  have n: "\<not> test_only request_on" by (simp add: request_on_def)
  have i: "\<not> crtc_active_state (active_frame_state initial_dasm)"
    by (simp add: initial_dasm_def empty_frame_def)
  from blocking_iff_active_property [OF run_on n m] n i show ?thesis
    by (simp add: run_on)
qed

section \<open>Draining the prior frame\<close>

text \<open>
  C2: a commit that is not test-only, whose transaction has been built while a fence is
  tracked, first waits on that fence for \<open>kTimeoutMs\<close> (logging a wait that fails),
  then promotes the staged frame and clears the fence, and only then issues the kernel
  commit, whatever the wait returned. The new frame is staged or installed on top of the
  cleaned state, so the counters never differ by more than one. The hypothesis on the
  counters is the assertion of \<open>CleanupPriorFrameResources\<close>.
\<close>

theorem prior_fence_drained_first:
  assumes "\<not> test_only args"
    and "HasInputs k (drop_same_active args s)"
    and "BuildTransaction k (force_activate (drop_same_active args s) s) s = Inr t"
    and "last_present_fence s = Some fd"
    and "frames_staged s - frames_tracked s = 1"
  shows "\<exists>r s1 flags.
           CommitFrame k args s = Some r \<and>
           CleanupPriorFrameResources s = Some s1 \<and>
           last_present_fence s1 = None \<and>
           frames_tracked s1 = frames_staged s1 \<and>
           active_frame_state s1 = staged_frame_state s \<and>
           events r =
             trace t @
             SyncWait fd kTimeoutMs #
             (if sync_wait k fd kTimeoutMs \<noteq> 0
              then [ALOGE (SyncWaitReturned fd (sync_wait k fd kTimeoutMs))] else []) @
             AtomicCommit (pset t) flags #
             (if ret r \<noteq> 0 then [ALOGE (FailedToCommitPset (ret r))] else []) \<and>
           ret r = fst (drmModeAtomicCommit k (pset t) flags) \<and>
           (ret r \<noteq> 0 \<longrightarrow> dasm_after r = s1) \<and>
           (ret r = 0 \<longrightarrow>
              dasm_after r =
                (if nonblock t
                 then s1\<lparr>last_present_fence :=
                           MakeSharedFd k (snd (drmModeAtomicCommit k (pset t) flags)),
                         staged_frame_state := new_frame_state t,
                         frames_staged := frames_staged s1 + 1\<rparr>
                 else s1\<lparr>active_frame_state := new_frame_state t\<rparr>)) \<and>
           frames_staged (dasm_after r) - frames_tracked (dasm_after r) \<le> 1"
proof -
  let ?s1 = "s\<lparr>frames_tracked := frames_tracked s + 1,
                active_frame_state := staged_frame_state s,
                staged_frame_state := moved_from (staged_frame_state s),
                last_present_fence := None\<rparr>"
  let ?wevs = "SyncWait fd kTimeoutMs #
             (if sync_wait k fd kTimeoutMs \<noteq> 0
              then [ALOGE (SyncWaitReturned fd (sync_wait k fd kTimeoutMs))] else [])"
  let ?flags = "if nonblock t then DRM_MODE_ATOMIC_ALLOW_MODESET OR DRM_MODE_ATOMIC_NONBLOCK
                else DRM_MODE_ATOMIC_ALLOW_MODESET"
  from assms(4,5) have c: "CleanupPriorFrameResources s = Some ?s1"
    by (simp add: CleanupPriorFrameResources_def)
  with assms(4) have w: "WaitPriorFramePresented k s = Some (?s1, ?wevs)"
    by (simp add: WaitPriorFramePresented_def Let_def)
  have s1: "last_present_fence ?s1 = None" "frames_tracked ?s1 = frames_staged ?s1"
    "active_frame_state ?s1 = staged_frame_state s"
    using assms(5) by (simp_all add: diff_eq_eq add.commute)
  show ?thesis
  proof (cases "fst (drmModeAtomicCommit k (pset t) ?flags) = 0")
    case False
    with assms(1-3) w have
      "CommitFrame k args s =
         Some \<lparr>ret = fst (drmModeAtomicCommit k (pset t) ?flags),
               args_after = force_activate (drop_same_active args s) s, dasm_after = ?s1,
               events = trace t @ ?wevs @ [AtomicCommit (pset t) ?flags,
                 ALOGE (FailedToCommitPset (fst (drmModeAtomicCommit k (pset t) ?flags)))]\<rparr>"
      by (simp add: CommitFrame_def Let_def)
    with c s1 False show ?thesis
      by (intro exI [of _ "\<lparr>ret = fst (drmModeAtomicCommit k (pset t) ?flags),
               args_after = force_activate (drop_same_active args s) s, dasm_after = ?s1,
               events = trace t @ ?wevs @ [AtomicCommit (pset t) ?flags,
                 ALOGE (FailedToCommitPset (fst (drmModeAtomicCommit k (pset t) ?flags)))]\<rparr>"]
          exI [of _ ?s1] exI [of _ ?flags]) simp
  next
    case True
    let ?fence = "MakeSharedFd k (snd (drmModeAtomicCommit k (pset t) ?flags))"
    let ?d = "if nonblock t
              then ?s1\<lparr>last_present_fence := ?fence, staged_frame_state := new_frame_state t,
                       frames_staged := frames_staged ?s1 + 1\<rparr>
              else ?s1\<lparr>active_frame_state := new_frame_state t\<rparr>"
    let ?r = "\<lparr>ret = 0,
               args_after = (force_activate (drop_same_active args s) s)\<lparr>out_fence := ?fence\<rparr>,
               dasm_after = ?d,
               events = trace t @ ?wevs @ [AtomicCommit (pset t) ?flags]\<rparr>"
    from True assms(1-3) w have "CommitFrame k args s = Some ?r"
      by (simp add: CommitFrame_def Let_def)
    with c s1 True assms(5) show ?thesis
      by (intro exI [of _ ?r] exI [of _ ?s1] exI [of _ ?flags]) simp
  qed
qed

text \<open>A second plane update while the first is still staged, with a fence wait that times out.\<close>

theorem prior_fence_drained_first_witness:
  "\<not> test_only request_swap \<and>
   last_present_fence dasm_staged = Some 7 \<and>
   frames_staged dasm_staged - frames_tracked dasm_staged = 1 \<and>
   sync_wait timing_out 7 kTimeoutMs \<noteq> 0 \<and>
   (\<exists>r s1 flags.
      CommitFrame timing_out request_swap dasm_staged = Some r \<and>
      CleanupPriorFrameResources dasm_staged = Some s1 \<and>
      last_present_fence s1 = None \<and>
      events r =
        [SyncWait 7 500, ALOGE (SyncWaitReturned 7 (- 1)),
         AtomicCommit [OutFencePtr, PlaneState 6 \<lparr>fb = Some 10\<rparr> 0 31 True,
                       PlaneState 8 \<lparr>fb = Some 11\<rparr> 1 31 False] flags] @
        (if ret r \<noteq> 0 then [ALOGE (FailedToCommitPset (ret r))] else []) \<and>
      frames_staged (dasm_after r) - frames_tracked (dasm_after r) \<le> 1)"
proof -
  have 1: "\<not> test_only request_swap" by (simp add: request_swap_def)
  have 2: "HasInputs timing_out (drop_same_active request_swap dasm_staged)"
    by (simp add: timing_out_def accepting_def request_swap_def drop_same_active_def)
  have 4: "last_present_fence dasm_staged = Some 7" by (simp add: dasm_staged_def)
  have 5: "frames_staged dasm_staged - frames_tracked dasm_staged = 1"
    by (simp add: dasm_staged_def)
  have 6: "sync_wait timing_out 7 kTimeoutMs = - 1" by (simp add: timing_out_def)
  from prior_fence_drained_first [OF 1 2 build_swap 4 5] 6 obtain r s1 flags where
    "CommitFrame timing_out request_swap dasm_staged = Some r"
    "CleanupPriorFrameResources dasm_staged = Some s1"
    "last_present_fence s1 = None"
    "events r =
        [SyncWait 7 500, ALOGE (SyncWaitReturned 7 (- 1)),
         AtomicCommit [OutFencePtr, PlaneState 6 \<lparr>fb = Some 10\<rparr> 0 31 True,
                       PlaneState 8 \<lparr>fb = Some 11\<rparr> 1 31 False] flags] @
        (if ret r \<noteq> 0 then [ALOGE (FailedToCommitPset (ret r))] else [])"
    "frames_staged (dasm_after r) - frames_tracked (dasm_after r) \<le> 1"
    by (auto simp: kTimeoutMs_def)
  with 1 4 5 6 show ?thesis by auto
qed

section \<open>Recovery\<close>

text \<open>
  C3: for a request that is not test-only, \<open>ExecuteAtomicCommit\<close> returns the result of
  \<open>CommitFrame\<close> as it is when that succeeds. When it fails, exactly one further
  \<open>CommitFrame\<close> runs, on a request whose only input is an empty plan; a transaction of
  that attempt disables every plane of the active frame state and binds none. The value
  returned is the first error in either case, and a failure of the second attempt only
  adds a log entry.
\<close>

theorem recovery_commit:
  assumes "\<not> test_only args" and "CommitFrame k args s = Some r"
  shows "(ret r = 0 \<longrightarrow> ExecuteAtomicCommit k k' args s = Some r) \<and>
         (ret r \<noteq> 0 \<longrightarrow>
            (\<forall>r'. CommitFrame k' cl_args (dasm_after r) = Some r' \<longrightarrow>
               ExecuteAtomicCommit k k' args s =
                 Some \<lparr>ret = ret r, args_after = args_after r, dasm_after = dasm_after r',
                       events = events r @ [ALOGE CompositeFailed] @ events r' @
                         (if ret r' \<noteq> 0 then [ALOGE FailedToCleanUpActiveComposition] else [])\<rparr> \<and>
               (\<forall>p f. AtomicCommit p f \<in> set (events r') \<longrightarrow>
                  (\<forall>q \<in> set (used_planes (active_frame_state (dasm_after r))).
                     PlaneDisable q \<in> set p) \<and>
                  (\<forall>q l z c b. PlaneState q l z c b \<notin> set p)))) \<and>
         composition cl_args = Some \<lparr>plan = []\<rparr>"
proof -
  have ok: "ExecuteAtomicCommit k k' args s = Some r" if "ret r = 0"
    using that assms by (simp add: ExecuteAtomicCommit_def)
  have rec: "ExecuteAtomicCommit k k' args s =
                 Some \<lparr>ret = ret r, args_after = args_after r, dasm_after = dasm_after r',
                       events = events r @ [ALOGE CompositeFailed] @ events r' @
                         (if ret r' \<noteq> 0 then [ALOGE FailedToCleanUpActiveComposition] else [])\<rparr>"
    if "ret r \<noteq> 0" and "CommitFrame k' cl_args (dasm_after r) = Some r'" for r'
    using that assms CommitFrame_test_only_after [OF assms(2)]
    by (simp add: ExecuteAtomicCommit_def)
  have dis: "(\<forall>q \<in> set (used_planes (active_frame_state (dasm_after r))). PlaneDisable q \<in> set p) \<and>
             (\<forall>q l z c b. PlaneState q l z c b \<notin> set p)"
    if r': "CommitFrame k' cl_args (dasm_after r) = Some r'"
      and e: "AtomicCommit p f \<in> set (events r')" for r' p f
  proof -
    let ?s = "dasm_after r"
    let ?args = "force_activate (drop_same_active cl_args ?s) ?s"
    from CommitFrame_commit_event [OF r' e] obtain t where
      b: "BuildTransaction k' ?args ?s = Inr t" and p: "p = pset t" by auto
    have pp: "plane_props k' ?args ?s = map PlaneDisable (used_planes (active_frame_state ?s))"
      by (simp add: plane_props_def cl_args_def)
    show ?thesis
      unfolding p BuildTransaction_Inr(1) [OF b] pp
      by (auto dest: active_props_set mode_props_set ctm_props_set)
  qed
  have "composition cl_args = Some \<lparr>plan = []\<rparr>" by (simp add: cl_args_def)
  with ok rec dis show ?thesis by blast
qed

text \<open>A rejected plane update followed by a recovery commit that is rejected as well.\<close>

theorem recovery_commit_witness:
  "\<not> test_only request_plane \<and>
   ExecuteAtomicCommit rejecting refusing request_plane dasm_staged =
     Some \<lparr>ret = - 16, args_after = request_plane, dasm_after = dasm_promoted,
           events = [SyncWait 7 500,
                     AtomicCommit [OutFencePtr, PlaneState 5 \<lparr>fb = Some 9\<rparr> 0 31 True] 0x600,
                     ALOGE (FailedToCommitPset (- 16)),
                     ALOGE CompositeFailed,
                     AtomicCommit [OutFencePtr, PlaneDisable 5] 0x600,
                     ALOGE (FailedToCommitPset (- 13)),
                     ALOGE FailedToCleanUpActiveComposition]\<rparr>"
proof -
  have n: "\<not> test_only request_plane" by (simp add: request_plane_def)
  from recovery_commit [OF n run_plane_rejected, of refusing] run_recovery_refused n
  show ?thesis by simp
qed

section \<open>Plane composition\<close>

text \<open>
  C4: for a request that carries a composition, every transaction \<open>CommitFrame\<close> submits
  ends with one binding per entry of the plan, in plan order, each with its layer and
  z-order and with the bottommost flag set for the first entry only, followed by a
  disable for every plane of the active frame state that the plan does not use; nothing
  before the bindings touches a plane. With accepting collaborators, and the clean-up
  assertion true if a fence is tracked, the call returns and does submit a transaction.
  The active frame state is the one in place when the call starts (line 69 precedes
  the clean-up of line 176): the planes of a frame that is still staged are not
  consulted and get no disable, as \<open>run_swap_staged\<close> shows.
\<close>

theorem plan_binds_and_disables:
  assumes "composition args = Some c"
  shows "(\<forall>r p f. CommitFrame k args s = Some r \<longrightarrow> AtomicCommit p f \<in> set (events r) \<longrightarrow>
            (\<exists>pre binds.
               p = pre @ binds @
                   map PlaneDisable
                     (filter (\<lambda>q. q \<notin> plane ` set (plan c))
                        (used_planes (active_frame_state s))) \<and>
               length binds = length (plan c) \<and>
               (\<forall>i < length (plan c).
                  binds ! i = PlaneState (plane (plan c ! i)) (layer (plan c ! i))
                                (z_pos (plan c ! i)) (GetId k) (i = 0)) \<and>
               (\<forall>q l z c b. PlaneState q l z c b \<notin> set pre) \<and>
               (\<forall>q. PlaneDisable q \<notin> set pre))) \<and>
         (HasInputs k (drop_same_active args s) \<longrightarrow> accepts k args \<longrightarrow>
          (last_present_fence s \<noteq> None \<longrightarrow> frames_staged s - frames_tracked s = 1) \<longrightarrow>
            (\<exists>r p f. CommitFrame k args s = Some r \<and> AtomicCommit p f \<in> set (events r)))"
proof -
  let ?args = "force_activate (drop_same_active args s) s"
  let ?pre = "OutFencePtr # active_props k ?args @ mode_props k ?args @ ctm_props k ?args"
  let ?binds = "bind_ops (GetId k) (plan c) True"
  let ?disables = "map PlaneDisable
        (filter (\<lambda>q. q \<notin> plane ` set (plan c)) (used_planes (active_frame_state s)))"
  have shape: "\<exists>pre binds.
               p = pre @ binds @ ?disables \<and>
               length binds = length (plan c) \<and>
               (\<forall>i < length (plan c).
                  binds ! i = PlaneState (plane (plan c ! i)) (layer (plan c ! i))
                                (z_pos (plan c ! i)) (GetId k) (i = 0)) \<and>
               (\<forall>q l z c b. PlaneState q l z c b \<notin> set pre) \<and>
               (\<forall>q. PlaneDisable q \<notin> set pre)"
    if r: "CommitFrame k args s = Some r" and e: "AtomicCommit p f \<in> set (events r)" for r p f
  proof -
    from CommitFrame_commit_event [OF r e] obtain t where
      b: "BuildTransaction k ?args s = Inr t" and p: "p = pset t" by auto
    from assms have pp: "plane_props k ?args s = ?binds @ ?disables"
      by (simp add: plane_props_def)
    have 1: "p = ?pre @ ?binds @ ?disables"
      unfolding p BuildTransaction_Inr(1) [OF b] pp by simp
    have 2: "length ?binds = length (plan c)" by simp
    have 3: "\<forall>i < length (plan c).
              ?binds ! i = PlaneState (plane (plan c ! i)) (layer (plan c ! i)) (z_pos (plan c ! i))
                            (GetId k) (i = 0)"
      by (auto simp: bind_ops_nth)
    have 4: "(\<forall>q l z c b. PlaneState q l z c b \<notin> set ?pre) \<and> (\<forall>q. PlaneDisable q \<notin> set ?pre)"
      using built_prefix_no_plane_ops [of _ k ?args] by blast
    from 1 2 3 4 show ?thesis by blast
  qed
  have total: "\<exists>r p f. CommitFrame k args s = Some r \<and> AtomicCommit p f \<in> set (events r)"
    if "HasInputs k (drop_same_active args s)" "accepts k args"
      "last_present_fence s \<noteq> None \<longrightarrow> frames_staged s - frames_tracked s = 1"
    using CommitFrame_accepted [OF that] .
  show ?thesis
  proof (intro conjI allI impI)
    fix r p f
    assume "CommitFrame k args s = Some r" and "AtomicCommit p f \<in> set (events r)"
    then show "\<exists>pre binds.
               p = pre @ binds @ ?disables \<and>
               length binds = length (plan c) \<and>
               (\<forall>i < length (plan c).
                  binds ! i = PlaneState (plane (plan c ! i)) (layer (plan c ! i))
                                (z_pos (plan c ! i)) (GetId k) (i = 0)) \<and>
               (\<forall>q l z c b. PlaneState q l z c b \<notin> set pre) \<and>
               (\<forall>q. PlaneDisable q \<notin> set pre)"
      by (rule shape)
  next
    assume "HasInputs k (drop_same_active args s)" and "accepts k args"
      and "last_present_fence s \<noteq> None \<longrightarrow> frames_staged s - frames_tracked s = 1"
    then show "\<exists>r p f. CommitFrame k args s = Some r \<and> AtomicCommit p f \<in> set (events r)"
      by (rule total)
  qed
qed

text \<open>Planes 6 and 8 replace plane 5 of the active frame: the run and its transaction.\<close>

theorem plan_binds_and_disables_witness:
  "composition request_swap =
     Some \<lparr>plan = [\<lparr>plane = 6, layer = \<lparr>fb = Some 10\<rparr>, z_pos = 0\<rparr>,
                   \<lparr>plane = 8, layer = \<lparr>fb = Some 11\<rparr>, z_pos = 1\<rparr>]\<rparr> \<and>
   used_planes (active_frame_state dasm_promoted) = [5] \<and>
   accepts accepting request_swap \<and>
   CommitFrame accepting request_swap dasm_promoted =
     Some \<lparr>ret = 0, args_after = request_swap\<lparr>out_fence := Some 7\<rparr>,
           dasm_after = dasm_promoted
             \<lparr>last_present_fence := Some 7,
              staged_frame_state := \<lparr>used_planes = [6, 8], used_framebuffers = [Some 10, Some 11],
                   mode_blob = None, ctm_blob = None, crtc_active_state = True\<rparr>,
              frames_staged := 2\<rparr>,
           events = [AtomicCommit [OutFencePtr, PlaneState 6 \<lparr>fb = Some 10\<rparr> 0 31 True,
                                   PlaneState 8 \<lparr>fb = Some 11\<rparr> 1 31 False,
                                   PlaneDisable 5] 0x600]\<rparr> \<and>
   (\<exists>pre binds.
      [OutFencePtr, PlaneState 6 \<lparr>fb = Some 10\<rparr> 0 31 True,
       PlaneState 8 \<lparr>fb = Some 11\<rparr> 1 31 False, PlaneDisable 5] =
        pre @ binds @ [PlaneDisable 5] \<and>
      length binds = 2 \<and>
      binds ! 0 = PlaneState 6 \<lparr>fb = Some 10\<rparr> 0 31 True \<and>
      binds ! 1 = PlaneState 8 \<lparr>fb = Some 11\<rparr> 1 31 False \<and>
      (\<forall>q. PlaneDisable q \<notin> set pre))"
proof -
  let ?c = "\<lparr>plan = [\<lparr>plane = 6, layer = \<lparr>fb = Some 10\<rparr>, z_pos = 0\<rparr>,
                   \<lparr>plane = 8, layer = \<lparr>fb = Some 11\<rparr>, z_pos = 1\<rparr>]\<rparr>"
  let ?p = "[OutFencePtr, PlaneState 6 \<lparr>fb = Some 10\<rparr> 0 31 True,
             PlaneState 8 \<lparr>fb = Some 11\<rparr> 1 31 False, PlaneDisable 5]"
  have c: "composition request_swap = Some ?c" by (simp add: request_swap_def)
  have u: "used_planes (active_frame_state dasm_promoted) = [5]" by (simp add: dasm_promoted_def)
  have g: "GetId accepting = 31" by (simp add: accepting_def)
  have e: "AtomicCommit ?p 0x600 \<in> set (events
      \<lparr>ret = 0, args_after = request_swap\<lparr>out_fence := Some 7\<rparr>,
           dasm_after = dasm_promoted
             \<lparr>last_present_fence := Some 7,
              staged_frame_state := \<lparr>used_planes = [6, 8], used_framebuffers = [Some 10, Some 11],
                   mode_blob = None, ctm_blob = None, crtc_active_state = True\<rparr>,
              frames_staged := 2\<rparr>,
           events = [AtomicCommit ?p 0x600]\<rparr>)"
    by simp
  from plan_binds_and_disables [OF c, of accepting dasm_promoted, THEN conjunct1, rule_format,
      OF run_swap e]
  obtain pre binds where
    1: "?p = pre @ binds @ map PlaneDisable
                 (filter (\<lambda>q. q \<notin> plane ` set (plan ?c)) (used_planes (active_frame_state dasm_promoted)))"
    and 2: "length binds = length (plan ?c)"
    and 3: "\<forall>i < length (plan ?c).
              binds ! i = PlaneState (plane (plan ?c ! i)) (layer (plan ?c ! i)) (z_pos (plan ?c ! i))
                            (GetId accepting) (i = 0)"
    and 4: "\<forall>q. PlaneDisable q \<notin> set pre"
    by blast
  from 1 u have s1: "?p = pre @ binds @ [PlaneDisable 5]"
    by simp
  from 2 have s2: "length binds = 2" by simp
  from 3 g have "binds ! 0 = PlaneState 6 \<lparr>fb = Some 10\<rparr> 0 31 True"
    by (simp add: nth_Cons')
  moreover from 3 [rule_format, of 1] g have "binds ! 1 = PlaneState 8 \<lparr>fb = Some 11\<rparr> 1 31 False"
    by simp
  ultimately have "\<exists>pre binds.
      ?p = pre @ binds @ [PlaneDisable 5] \<and>
      length binds = 2 \<and>
      binds ! 0 = PlaneState 6 \<lparr>fb = Some 10\<rparr> 0 31 True \<and>
      binds ! 1 = PlaneState 8 \<lparr>fb = Some 11\<rparr> 1 31 False \<and>
      (\<forall>q. PlaneDisable q \<notin> set pre)"
    using s1 s2 4 by blast
  with c u accepts_accepting [of request_swap] run_swap show ?thesis
    by (intro conjI) assumption+
qed

section \<open>The active flag\<close>

text \<open>
  C5: when the output is off and the request still has inputs after the same-state drop,
  \<open>CommitFrame\<close> sets the active flag of the request to true, and every transaction it
  submits carries the activation property.
\<close>

theorem forced_activation:
  assumes "\<not> crtc_active_state (active_frame_state s)"
    and "HasInputs k (drop_same_active args s)"
    and "CommitFrame k args s = Some r"
  shows "active (args_after r) = Some True \<and>
         (\<forall>p f. AtomicCommit p f \<in> set (events r) \<longrightarrow> CrtcActive 1 \<in> set p)"
proof -
  let ?args = "force_activate (drop_same_active args s) s"
  have a: "active ?args = Some True"
    using assms(1) by (simp add: active_effective)
  have "CrtcActive 1 \<in> set p" if "AtomicCommit p f \<in> set (events r)" for p f
  proof -
    from CommitFrame_commit_event [OF assms(3) that] obtain t where
      "BuildTransaction k ?args s = Inr t" and "p = pset t" by auto
    with a show ?thesis by (auto simp: CrtcActive_in_built)
  qed
  with a CommitFrame_active_after [OF assms(3,2)] show ?thesis by simp
qed

text \<open>A plane update with no active flag, submitted to a fresh manager.\<close>

theorem forced_activation_witness:
  "\<not> crtc_active_state (active_frame_state initial_dasm) \<and>
   active request_plane = None \<and>
   (\<exists>r. CommitFrame accepting request_plane initial_dasm = Some r \<and>
        active (args_after r) = Some True \<and>
        (\<exists>p f. AtomicCommit p f \<in> set (events r)) \<and>
        (\<forall>p f. AtomicCommit p f \<in> set (events r) \<longrightarrow> CrtcActive 1 \<in> set p))"
proof -
  have 1: "\<not> crtc_active_state (active_frame_state initial_dasm)"
    by (simp add: initial_dasm_def empty_frame_def)
  have 2: "HasInputs accepting (drop_same_active request_plane initial_dasm)"
    by (simp add: accepting_def request_plane_def drop_same_active_def)
  have 3: "active request_plane = None" by (simp add: request_plane_def)
  from forced_activation [OF 1 2 run_plane_initial] 1 3 show ?thesis
    by (auto simp: run_plane_initial)
qed

text \<open>
  C6: a request whose active flag equals the current one has the flag dropped, and no
  transaction submitted for it asserts the current value again. A request that has no
  inputs after the drop returns 0 at once: the manager is unchanged and no external call
  is made.
\<close>

theorem same_active_not_reasserted:
  "(active args = Some (crtc_active_state (active_frame_state s)) \<longrightarrow>
      active (drop_same_active args s) = None \<and>
      (\<forall>r p f. CommitFrame k args s = Some r \<longrightarrow> AtomicCommit p f \<in> set (events r) \<longrightarrow>
         CrtcActive (if crtc_active_state (active_frame_state s) then 1 else 0) \<notin> set p)) \<and>
   (\<not> HasInputs k (drop_same_active args s) \<longrightarrow>
      CommitFrame k args s =
        Some \<lparr>ret = 0, args_after = drop_same_active args s, dasm_after = s, events = []\<rparr>)"
proof (intro conjI impI allI)
  assume "active args = Some (crtc_active_state (active_frame_state s))"
  then show "active (drop_same_active args s) = None"
    by (simp add: drop_same_active_def)
next
  fix r p f
  let ?args = "force_activate (drop_same_active args s) s"
  assume same: "active args = Some (crtc_active_state (active_frame_state s))"
    and r: "CommitFrame k args s = Some r" and e: "AtomicCommit p f \<in> set (events r)"
  from CommitFrame_commit_event [OF r e] obtain t where
    b: "BuildTransaction k ?args s = Inr t" and p: "p = pset t" by auto
  from same have "active ?args = (if crtc_active_state (active_frame_state s) then None else Some True)"
    by (simp add: active_effective)
  then show "CrtcActive (if crtc_active_state (active_frame_state s) then 1 else 0) \<notin> set p"
    unfolding p CrtcActive_in_built [OF b] by (auto split: if_splits)
next
  assume "\<not> HasInputs k (drop_same_active args s)"
  then show "CommitFrame k args s =
        Some \<lparr>ret = 0, args_after = drop_same_active args s, dasm_after = s, events = []\<rparr>"
    by (simp add: CommitFrame_def)
qed

text \<open>Asking an output that is on to switch on, with and without a plane update.\<close>

theorem same_active_not_reasserted_witness:
  "active request_on_plane = Some (crtc_active_state (active_frame_state dasm_on)) \<and>
   active request_on_again = Some (crtc_active_state (active_frame_state dasm_on)) \<and>
   CrtcActive 1 \<notin> set [OutFencePtr, PlaneState 5 \<lparr>fb = Some 9\<rparr> 0 31 True] \<and>
   \<not> HasInputs accepting (drop_same_active request_on_again dasm_on) \<and>
   CommitFrame accepting request_on_again dasm_on =
     Some \<lparr>ret = 0, args_after = request_on_again\<lparr>active := None\<rparr>, dasm_after = dasm_on,
           events = []\<rparr>"
proof -
  have 1: "active request_on_plane = Some (crtc_active_state (active_frame_state dasm_on))"
    by (simp add: request_on_plane_def dasm_on_def)
  have 2: "active request_on_again = Some (crtc_active_state (active_frame_state dasm_on))"
    by (simp add: request_on_again_def dasm_on_def)
  have 3: "\<not> HasInputs accepting (drop_same_active request_on_again dasm_on)"
    by (simp add: accepting_def request_on_again_def drop_same_active_def dasm_on_def)
  have 4: "drop_same_active request_on_again dasm_on = request_on_again\<lparr>active := None\<rparr>"
    by (simp add: request_on_again_def drop_same_active_def dasm_on_def)
  have 5: "crtc_active_state (active_frame_state dasm_on)" by (simp add: dasm_on_def)
  note a = same_active_not_reasserted [of request_on_plane dasm_on accepting]
  note b = same_active_not_reasserted [of request_on_again dasm_on accepting]
  from a 1 5 run_on_plane
  have "CrtcActive 1 \<notin> set [OutFencePtr, PlaneState 5 \<lparr>fb = Some 9\<rparr> 0 31 True]"
    by simp
  with b 1 2 3 4 show ?thesis by simp
qed

section \<open>Test-only commits\<close>

text \<open>
  C7: a test-only request always returns and leaves the manager as it was. Once the
  transaction is built it is submitted with \<open>TEST_ONLY\<close> and the kernel's status is
  returned; no other commit is issued. \<open>ExecuteAtomicCommit\<close> returns the same outcome,
  with no recovery attempt, whatever the status.
\<close>

theorem test_only_commit:
  assumes "test_only args"
  shows "\<exists>r. CommitFrame k args s = Some r \<and> dasm_after r = s \<and>
           ExecuteAtomicCommit k k' args s = Some r \<and>
           (\<forall>p f. AtomicCommit p f \<in> set (events r) \<longrightarrow>
              f = DRM_MODE_ATOMIC_ALLOW_MODESET OR DRM_MODE_ATOMIC_TEST_ONLY) \<and>
           (\<forall>t. HasInputs k (drop_same_active args s) \<longrightarrow>
              BuildTransaction k (force_activate (drop_same_active args s) s) s = Inr t \<longrightarrow>
              ret r = fst (drmModeAtomicCommit k (pset t)
                        (DRM_MODE_ATOMIC_ALLOW_MODESET OR DRM_MODE_ATOMIC_TEST_ONLY)) \<and>
              events r = trace t @ [AtomicCommit (pset t)
                        (DRM_MODE_ATOMIC_ALLOW_MODESET OR DRM_MODE_ATOMIC_TEST_ONLY)])"
proof -
  let ?args = "force_activate (drop_same_active args s) s"
  have "CommitFrame k args s \<noteq> None"
  proof (cases "BuildTransaction k ?args s")
    case (Inl e)
    then show ?thesis by (cases e) (simp add: CommitFrame_def Let_def)
  next
    case (Inr t)
    with assms show ?thesis by (simp add: CommitFrame_def Let_def)
  qed
  then obtain r where r: "CommitFrame k args s = Some r" by auto
  from r assms have st: "dasm_after r = s"
    by (cases rule: CommitFrame_cases) auto
  from CommitFrame_test_only_after [OF r] assms r
  have ex: "ExecuteAtomicCommit k k' args s = Some r"
    by (simp add: ExecuteAtomicCommit_def)
  have fl: "f = DRM_MODE_ATOMIC_ALLOW_MODESET OR DRM_MODE_ATOMIC_TEST_ONLY"
    if "AtomicCommit p f \<in> set (events r)" for p f
    using CommitFrame_commit_event [OF r that] assms by auto
  have bt: "ret r = fst (drmModeAtomicCommit k (pset t)
                        (DRM_MODE_ATOMIC_ALLOW_MODESET OR DRM_MODE_ATOMIC_TEST_ONLY)) \<and>
            events r = trace t @ [AtomicCommit (pset t)
                        (DRM_MODE_ATOMIC_ALLOW_MODESET OR DRM_MODE_ATOMIC_TEST_ONLY)]"
    if "HasInputs k (drop_same_active args s)" "BuildTransaction k ?args s = Inr t" for t
    using r that assms by (cases rule: CommitFrame_cases) auto
  from r st ex fl bt show ?thesis by blast
qed

text \<open>A test-only plane update that the kernel rejects.\<close>

theorem test_only_commit_witness:
  "test_only request_test \<and>
   CommitFrame rejecting request_test dasm_staged =
     Some \<lparr>ret = - 16, args_after = request_test, dasm_after = dasm_staged,
           events = [AtomicCommit [OutFencePtr, PlaneState 5 \<lparr>fb = Some 9\<rparr> 0 31 True] 0x500]\<rparr> \<and>
   ExecuteAtomicCommit rejecting accepting request_test dasm_staged =
     CommitFrame rejecting request_test dasm_staged"
proof -
  have t: "test_only request_test" by (simp add: request_test_def)
  from test_only_commit [OF t, of rejecting dasm_staged accepting] t show ?thesis
    by (auto simp: run_test_rejected)
qed

section \<open>Mode and colour-matrix blobs\<close>

text \<open>
  C8, as stated, fails for the colour transform: on a CRTC without a \<open>CTM\<close> property
  the request is committed successfully with no blob registered and no \<open>CTM\<close> property
  in the transaction (the guard of line 110).
\<close>

theorem color_matrix_ignored_without_ctm_property:
  "color_matrix request_ctm = Some [1, 0, 0, 0, 1, 0, 0, 0, 1] \<and>
   \<not> GetCtmProperty no_ctm \<and>
   CommitFrame no_ctm request_ctm dasm_on =
     Some \<lparr>ret = 0, args_after = request_ctm\<lparr>out_fence := Some 7\<rparr>,
           dasm_after = dasm_on
             \<lparr>last_present_fence := Some 7,
              staged_frame_state := \<lparr>used_planes = [], used_framebuffers = [],
                   mode_blob = None, ctm_blob = None, crtc_active_state = True\<rparr>,
              frames_staged := 1\<rparr>,
           events = [AtomicCommit [OutFencePtr] 0x600]\<rparr>"
  by (simp add: run_no_ctm) (simp add: request_ctm_def no_ctm_def)

text \<open>
  C8, amended: for a request with inputs, a display mode is registered as a blob and its
  property added to every transaction submitted; a colour transform likewise when the
  CRTC has a \<open>CTM\<close> property, and it is ignored otherwise. If the blob cannot be created
  the call returns \<open>-ENOMEM\<close> or \<open>-EINVAL\<close>, submits nothing and leaves the manager
  unchanged. With accepting collaborators a transaction is submitted, after the blob
  calls and with the properties in it.
\<close>

theorem blob_registration:
  assumes "HasInputs k (drop_same_active args s)"
    and "CommitFrame k args s = Some r"
  shows "(\<forall>m. display_mode args = Some m \<longrightarrow>
            (CreateModeBlob k m = None \<longrightarrow>
               (ret r = - ENOMEM \<or> ret r = - EINVAL) \<and> dasm_after r = s \<and>
               (\<forall>p f. AtomicCommit p f \<notin> set (events r))) \<and>
            (\<forall>p f. AtomicCommit p f \<in> set (events r) \<longrightarrow>
               CreateModeBlobCall m \<in> set (events r) \<and>
               (\<exists>b. CreateModeBlob k m = Some b \<and> CrtcMode b \<in> set p))) \<and>
         (\<forall>c. color_matrix args = Some c \<longrightarrow> GetCtmProperty k \<longrightarrow>
            (RegisterUserPropertyBlob k c = None \<longrightarrow>
               (ret r = - ENOMEM \<or> ret r = - EINVAL) \<and> dasm_after r = s \<and>
               (\<forall>p f. AtomicCommit p f \<notin> set (events r))) \<and>
            (\<forall>p f. AtomicCommit p f \<in> set (events r) \<longrightarrow>
               RegisterUserPropertyBlobCall c \<in> set (events r) \<and>
               (\<exists>b. RegisterUserPropertyBlob k c = Some b \<and> CrtcCtm b \<in> set p))) \<and>
         (\<forall>c. color_matrix args = Some c \<longrightarrow> \<not> GetCtmProperty k \<longrightarrow>
            RegisterUserPropertyBlobCall c \<notin> set (events r) \<and>
            (\<forall>p f b. AtomicCommit p f \<in> set (events r) \<longrightarrow> CrtcCtm b \<notin> set p)) \<and>
         (accepts k args \<longrightarrow>
            (\<exists>p f. AtomicCommit p f \<in> set (events r) \<and>
               (\<forall>m. display_mode args = Some m \<longrightarrow>
                  CreateModeBlobCall m \<in> set (events r) \<and>
                  (\<exists>b. CreateModeBlob k m = Some b \<and> CrtcMode b \<in> set p)) \<and>
               (\<forall>c. color_matrix args = Some c \<longrightarrow> GetCtmProperty k \<longrightarrow>
                  RegisterUserPropertyBlobCall c \<in> set (events r) \<and>
                  (\<exists>b. RegisterUserPropertyBlob k c = Some b \<and> CrtcCtm b \<in> set p))))"
proof -
  let ?args = "force_activate (drop_same_active args s) s"
  have mode_fail: "(ret r = - ENOMEM \<or> ret r = - EINVAL) \<and> dasm_after r = s \<and>
               (\<forall>p f. AtomicCommit p f \<notin> set (events r))"
    if "display_mode args = Some m" "CreateModeBlob k m = None" for m
  proof -
    from that have "\<forall>t. BuildTransaction k ?args s \<noteq> Inr t"
      using BuildTransaction_blobs(1) [of k ?args s _ m] by auto
    from CommitFrame_build_failed [OF assms(2,1) this] show ?thesis .
  qed
  have ctm_fail: "(ret r = - ENOMEM \<or> ret r = - EINVAL) \<and> dasm_after r = s \<and>
               (\<forall>p f. AtomicCommit p f \<notin> set (events r))"
    if "color_matrix args = Some c" "GetCtmProperty k" "RegisterUserPropertyBlob k c = None" for c
  proof -
    from that have "\<forall>t. BuildTransaction k ?args s \<noteq> Inr t"
      using BuildTransaction_blobs(2) [of k ?args s _ c] by auto
    from CommitFrame_build_failed [OF assms(2,1) this] show ?thesis .
  qed
  have mode_ok: "CreateModeBlobCall m \<in> set (events r) \<and>
               (\<exists>b. CreateModeBlob k m = Some b \<and> CrtcMode b \<in> set p)"
    if "display_mode args = Some m" "AtomicCommit p f \<in> set (events r)" for m p f
  proof -
    from CommitFrame_commit_event [OF assms(2) that(2)] obtain t where
      b: "BuildTransaction k ?args s = Inr t" and p: "p = pset t" by auto
    from that(1) have "CreateModeBlobCall m \<in> set (blob_calls k ?args)"
      by (simp add: blob_calls_def)
    with CommitFrame_trace_events [OF assms(2,1) b] BuildTransaction_Inr(3) [OF b]
    have 1: "CreateModeBlobCall m \<in> set (events r)" by auto
    from BuildTransaction_blobs(1) [OF b, of m] that(1) obtain bl where
      bl: "CreateModeBlob k m = Some bl" by auto
    with that(1) have "CrtcMode bl \<in> set (mode_props k ?args)"
      by (simp add: mode_props_def)
    with bl 1 show ?thesis unfolding p BuildTransaction_Inr(1) [OF b] by simp
  qed
  have ctm_ok: "RegisterUserPropertyBlobCall c \<in> set (events r) \<and>
               (\<exists>b. RegisterUserPropertyBlob k c = Some b \<and> CrtcCtm b \<in> set p)"
    if "color_matrix args = Some c" "GetCtmProperty k" "AtomicCommit p f \<in> set (events r)" for c p f
  proof -
    from CommitFrame_commit_event [OF assms(2) that(3)] obtain t where
      b: "BuildTransaction k ?args s = Inr t" and p: "p = pset t" by auto
    from that(1,2) have "RegisterUserPropertyBlobCall c \<in> set (blob_calls k ?args)"
      by (simp add: blob_calls_def)
    with CommitFrame_trace_events [OF assms(2,1) b] BuildTransaction_Inr(3) [OF b]
    have 1: "RegisterUserPropertyBlobCall c \<in> set (events r)" by auto
    from BuildTransaction_blobs(2) [OF b, of c] that(1,2) obtain bl where
      bl: "RegisterUserPropertyBlob k c = Some bl" by auto
    with that(1,2) have "CrtcCtm bl \<in> set (ctm_props k ?args)"
      by (simp add: ctm_props_def)
    with bl 1 show ?thesis unfolding p BuildTransaction_Inr(1) [OF b] by simp
  qed
  have no_call: "RegisterUserPropertyBlobCall c \<notin> set (events r)"
    if "\<not> GetCtmProperty k" for c
  proof
    assume "RegisterUserPropertyBlobCall c \<in> set (events r)"
    from CommitFrame_events [OF assms(2) this] that show False
      by (auto simp: blob_calls_def split: option.splits)
  qed
  have no_prop: "CrtcCtm b \<notin> set p"
    if "\<not> GetCtmProperty k" "AtomicCommit p f \<in> set (events r)" for p f b
  proof -
    from CommitFrame_commit_event [OF assms(2) that(2)] obtain t where
      b: "BuildTransaction k ?args s = Inr t" and p: "p = pset t" by auto
    from that(1) have "ctm_props k ?args = []"
      by (simp add: ctm_props_def split: option.splits)
    then show ?thesis unfolding p BuildTransaction_Inr(1) [OF b]
      by (auto dest: active_props_set mode_props_set plane_props_set)
  qed
  have issued: "\<exists>p f. AtomicCommit p f \<in> set (events r)" if "accepts k args"
    using CommitFrame_accepted_events [OF assms(2,1) that] .
  have total: "\<exists>p f. AtomicCommit p f \<in> set (events r) \<and>
               (\<forall>m. display_mode args = Some m \<longrightarrow>
                  CreateModeBlobCall m \<in> set (events r) \<and>
                  (\<exists>b. CreateModeBlob k m = Some b \<and> CrtcMode b \<in> set p)) \<and>
               (\<forall>c. color_matrix args = Some c \<longrightarrow> GetCtmProperty k \<longrightarrow>
                  RegisterUserPropertyBlobCall c \<in> set (events r) \<and>
                  (\<exists>b. RegisterUserPropertyBlob k c = Some b \<and> CrtcCtm b \<in> set p))"
    if "accepts k args"
  proof -
    from issued [OF that] obtain p f where e: "AtomicCommit p f \<in> set (events r)" by blast
    with mode_ok ctm_ok show ?thesis by blast
  qed
  from mode_fail mode_ok ctm_fail ctm_ok no_call no_prop total show ?thesis by blast
qed

text \<open>
  A request with a mode and a colour matrix on a CRTC with a \<open>CTM\<close> property: the run,
  with both blob calls, both properties and both handles in the staged frame state.
\<close>

theorem blob_registration_witness:
  "HasInputs accepting (drop_same_active request_mode_ctm dasm_on) \<and>
   accepts accepting request_mode_ctm \<and>
   display_mode request_mode_ctm = Some 2 \<and>
   color_matrix request_mode_ctm = Some [1, 0, 0, 0, 1, 0, 0, 0, 1] \<and>
   GetCtmProperty accepting \<and>
   CommitFrame accepting request_mode_ctm dasm_on =
     Some \<lparr>ret = 0, args_after = request_mode_ctm\<lparr>out_fence := Some 7\<rparr>,
           dasm_after = dasm_on
             \<lparr>last_present_fence := Some 7,
              staged_frame_state := \<lparr>used_planes = [], used_framebuffers = [],
                   mode_blob = Some 102, ctm_blob = Some 200, crtc_active_state = True\<rparr>,
              frames_staged := 1\<rparr>,
           events = [CreateModeBlobCall 2,
                     RegisterUserPropertyBlobCall [1, 0, 0, 0, 1, 0, 0, 0, 1],
                     AtomicCommit [OutFencePtr, CrtcMode 102, CrtcCtm 200] 0x600]\<rparr> \<and>
   CreateModeBlob accepting 2 = Some 102 \<and>
   RegisterUserPropertyBlob accepting [1, 0, 0, 0, 1, 0, 0, 0, 1] = Some 200 \<and>
   (\<exists>b. CreateModeBlob accepting 2 = Some b \<and>
        CrtcMode b \<in> set [OutFencePtr, CrtcMode 102, CrtcCtm 200]) \<and>
   (\<exists>b. RegisterUserPropertyBlob accepting [1, 0, 0, 0, 1, 0, 0, 0, 1] = Some b \<and>
        CrtcCtm b \<in> set [OutFencePtr, CrtcMode 102, CrtcCtm 200])"
proof -
  have h: "HasInputs accepting (drop_same_active request_mode_ctm dasm_on)"
    by (simp add: accepting_def request_mode_ctm_def drop_same_active_def)
  have m: "display_mode request_mode_ctm = Some 2"
    and c: "color_matrix request_mode_ctm = Some [1, 0, 0, 0, 1, 0, 0, 0, 1]"
    by (simp_all add: request_mode_ctm_def)
  have g: "GetCtmProperty accepting" "CreateModeBlob accepting 2 = Some 102"
    "RegisterUserPropertyBlob accepting [1, 0, 0, 0, 1, 0, 0, 0, 1] = Some 200"
    by (simp_all add: accepting_def)
  note w = blob_registration [OF h run_mode_ctm]
  from w m have "\<exists>b. CreateModeBlob accepting 2 = Some b \<and>
        CrtcMode b \<in> set [OutFencePtr, CrtcMode 102, CrtcCtm 200]"
    by simp
  moreover from w c g(1) have "\<exists>b. RegisterUserPropertyBlob accepting [1, 0, 0, 0, 1, 0, 0, 0, 1] = Some b \<and>
        CrtcCtm b \<in> set [OutFencePtr, CrtcMode 102, CrtcCtm 200]"
    by simp
  ultimately show ?thesis using h m c g accepts_accepting [of request_mode_ctm] run_mode_ctm
    by simp
qed

section \<open>Failing paths\<close>

text \<open>
  C9, as stated, fails when the kernel rejects a commit while a fence is tracked: the
  prior frame has been promoted before the commit is issued (line 176), so the active
  and staged frame states, the fence and \<open>frames_tracked_\<close> differ from their values
  before the call.
\<close>

theorem rejected_commit_promotes_prior_frame:
  "map_option dasm_after (CommitFrame accepting request_plane dasm_on) = Some dasm_staged \<and>
   CommitFrame rejecting request_plane dasm_staged =
     Some \<lparr>ret = - 16, args_after = request_plane, dasm_after = dasm_promoted,
           events = [SyncWait 7 500,
                     AtomicCommit [OutFencePtr, PlaneState 5 \<lparr>fb = Some 9\<rparr> 0 31 True] 0x600,
                     ALOGE (FailedToCommitPset (- 16))]\<rparr> \<and>
   dasm_promoted \<noteq> dasm_staged \<and>
   active_frame_state dasm_promoted \<noteq> active_frame_state dasm_staged \<and>
   staged_frame_state dasm_promoted \<noteq> staged_frame_state dasm_staged \<and>
   last_present_fence dasm_staged = Some 7 \<and> last_present_fence dasm_promoted = None \<and>
   frames_tracked dasm_staged = 0 \<and> frames_tracked dasm_promoted = 1"
  by (simp add: run_plane run_plane_rejected) (simp add: dasm_staged_def dasm_promoted_def)

text \<open>
  C9, amended: when \<open>CommitFrame\<close> returns an error the new frame state is never
  installed and \<open>frames_staged_\<close> is unchanged. The manager is exactly as before the
  call if the failure precedes the kernel commit, if the request is test-only, or if no
  fence was tracked. When the kernel rejects a commit that is not test-only while a fence
  is tracked, the manager is in the state \<open>CleanupPriorFrameResources\<close> leaves, the prior
  frame promoted, which differs from the state before the call.
\<close>

theorem failure_keeps_or_promotes:
  assumes "CommitFrame k args s = Some r" and "ret r \<noteq> 0"
  shows "frames_staged (dasm_after r) = frames_staged s \<and>
         (dasm_after r = s \<or>
            \<not> test_only args \<and> last_present_fence s \<noteq> None \<and>
            CleanupPriorFrameResources s = Some (dasm_after r) \<and>
            (\<exists>p f. AtomicCommit p f \<in> set (events r))) \<and>
         (\<not> test_only args \<and> last_present_fence s \<noteq> None \<and>
          (\<exists>p f. AtomicCommit p f \<in> set (events r)) \<longrightarrow>
            CleanupPriorFrameResources s = Some (dasm_after r) \<and> dasm_after r \<noteq> s) \<and>
         ((\<forall>p f. AtomicCommit p f \<notin> set (events r)) \<longrightarrow> dasm_after r = s) \<and>
         (test_only args \<longrightarrow> dasm_after r = s) \<and>
         (last_present_fence s = None \<longrightarrow> dasm_after r = s)"
  using assms(1)
proof (cases rule: CommitFrame_cases)
  case noop
  then show ?thesis by simp
next
  case (build_failed e evs)
  with BuildTransaction_Inl [OF build_failed(2)] show ?thesis
    by (auto dest: quiet_no_commit)
next
  case (test t)
  then show ?thesis by simp
next
  case (rejected t s1 wevs flags)
  have e: "\<exists>p f. AtomicCommit p f \<in> set (events r)"
    using rejected(7) by auto
  note st = WaitPriorFramePresented_staged [OF rejected(4)]
  from WaitPriorFramePresented_Some [OF rejected(4)] show ?thesis
  proof
    assume "last_present_fence s = None \<and> s1 = s \<and> wevs = []"
    with rejected(7) show ?thesis by simp
  next
    assume "\<exists>fd. last_present_fence s = Some fd \<and> CleanupPriorFrameResources s = Some s1 \<and>
            wevs = SyncWait fd kTimeoutMs #
              (if sync_wait k fd kTimeoutMs \<noteq> 0
               then [ALOGE (SyncWaitReturned fd (sync_wait k fd kTimeoutMs))] else [])"
    then obtain fd where f: "last_present_fence s = Some fd"
      and c: "CleanupPriorFrameResources s = Some s1" by blast
    from c have "last_present_fence s1 = None"
      by (auto simp: CleanupPriorFrameResources_def split: if_splits)
    with f have ne: "s1 \<noteq> s" by auto
    have d: "dasm_after r = s1" "\<not> test_only args" using rejected(3,7) by simp_all
    from d c ne f e st show ?thesis by simp
  qed
next
  case (staged t s1 wevs flags fence)
  with assms(2) show ?thesis by simp
next
  case (installed t s1 wevs flags fence)
  with assms(2) show ?thesis by simp
qed

text \<open>The rejected plane update of the counterexample: the run and the promoted state.\<close>

theorem failure_keeps_or_promotes_witness:
  "CommitFrame rejecting request_plane dasm_staged =
     Some \<lparr>ret = - 16, args_after = request_plane, dasm_after = dasm_promoted,
           events = [SyncWait 7 500,
                     AtomicCommit [OutFencePtr, PlaneState 5 \<lparr>fb = Some 9\<rparr> 0 31 True] 0x600,
                     ALOGE (FailedToCommitPset (- 16))]\<rparr> \<and>
   \<not> test_only request_plane \<and>
   last_present_fence dasm_staged \<noteq> None \<and>
   frames_staged dasm_promoted = frames_staged dasm_staged \<and>
   CleanupPriorFrameResources dasm_staged = Some dasm_promoted \<and>
   dasm_promoted \<noteq> dasm_staged"
proof -
  let ?r = "\<lparr>ret = - 16, args_after = request_plane, dasm_after = dasm_promoted,
           events = [SyncWait 7 500,
                     AtomicCommit [OutFencePtr, PlaneState 5 \<lparr>fb = Some 9\<rparr> 0 31 True] 0x600,
                     ALOGE (FailedToCommitPset (- 16))]\<rparr>"
  have n: "ret ?r \<noteq> 0" by simp
  have t: "\<not> test_only request_plane" by (simp add: request_plane_def)
  have f: "last_present_fence dasm_staged \<noteq> None" by (simp add: dasm_staged_def)
  have e: "\<exists>p f. AtomicCommit p f \<in> set (events ?r)" by auto
  from failure_keeps_or_promotes [OF run_plane_rejected n] t f e run_plane_rejected
  show ?thesis by simp
qed

section \<open>The assertions of \<open>CleanupPriorFrameResources\<close>\<close>

text \<open>
  C10 holds while the counters have not wrapped around (\<open>assertions_hold_before_wrap\<close>):
  a tracked fence implies \<open>frames_staged_ - frames_tracked_ == 1\<close>, \<open>CommitFrame\<close> never
  aborts, and neither does the tracker's locked block while fewer than \<open>2^31\<close> calls of
  \<open>CommitFrame\<close> have been made, provided successful non-blocking commits deliver their out-fence and
  callers hold the device-wide lock. It fails after that, against the assertions of
  lines 259--260: the tracker wakes up for frame \<open>INT_MAX\<close>; before its locked block runs,
  one commit stages frame \<open>INT_MIN\<close> and a second, rejected one promotes it. Both
  counters are then \<open>INT_MIN\<close> and no fence is tracked, the signed test of line 250
  (\<open>INT_MAX > INT_MIN\<close>) sends the tracker into \<open>CleanupPriorFrameResources\<close>, and both
  assertions fail.
\<close>

theorem cleanup_assertion_fires_after_wrap:
  "reachable 2147483650 dasm_wrapped tracker_at_max \<and>
   pc tracker_at_max = Draining \<and>
   frames_tracked dasm_wrapped <s tracking_at_the_moment tracker_at_max \<and>
   frames_staged dasm_wrapped - frames_tracked dasm_wrapped \<noteq> 1 \<and>
   last_present_fence dasm_wrapped = None \<and>
   CleanupPriorFrameResources dasm_wrapped = None \<and>
   ThreadFn_finish False dasm_wrapped tracker_at_max = None"
  by (simp add: reachable_wrapped)
    (simp add: tracker_at_max_def dasm_wrapped_def dasm_promoted_def word_sless_alt
      ThreadFn_finish_def CleanupPriorFrameResources_def)

end
